theory Spec2Isabelle
  imports Complex_Main "HOL-Library.Word"
begin

section \<open>JavaScript numbers\<close>

text \<open>
  A JavaScript number is an IEEE 754 double. The model takes a number for the real it
  denotes, and every arithmetic operation of the source returns the exact result rounded
  to the nearest double, ties to the even significand (\<open>roundDouble\<close>): a double has a
  significand of 53 bits, so between \<open>2 ^ e\<close> and \<open>2 ^ (e + 1)\<close> the doubles are the
  multiples of \<open>2 ^ (e - 52)\<close>, which is \<open>ulp x\<close> for an \<open>x\<close> in that interval, and
  \<open>roundDouble x\<close> is the multiple nearest to \<open>x\<close>. The exponent is not bounded (no
  overflow to infinity and no subnormal numbers): the coordinates, angles and times the
  program computes with are far from both ends of the range. \<open>Math.abs\<close>, \<open>Math.max\<close>
  and the comparisons are exact. \<open>Math.pow(x, 2)\<close> is taken as the rounded square.
  Times in milliseconds (\<open>Date.now()\<close>, timer delays) are integers far below
  \<open>2 ^ 53\<close>, on which double arithmetic is exact; they are modelled as integers.
\<close>

definition roundHalfEven :: "real \<Rightarrow> int" where
  "roundHalfEven m =
     (let f = \<lfloor>m\<rfloor>; r = m - of_int f
      in if r < 1 / 2 then f else if r > 1 / 2 then f + 1 else if even f then f else f + 1)"

definition ulp :: "real \<Rightarrow> real" where
  "ulp x = 2 powr (of_int \<lfloor>log 2 \<bar>x\<bar>\<rfloor> - 52)"

definition roundDouble :: "real \<Rightarrow> real" where
  "roundDouble x =
     (if x = 0 then 0 else sgn x * (of_int (roundHalfEven (\<bar>x\<bar> / ulp x)) * ulp x))"

definition jsAdd :: "real \<Rightarrow> real \<Rightarrow> real" where
  "jsAdd a b = roundDouble (a + b)"

definition jsSub :: "real \<Rightarrow> real \<Rightarrow> real" where
  "jsSub a b = roundDouble (a - b)"

definition jsMul :: "real \<Rightarrow> real \<Rightarrow> real" where
  "jsMul a b = roundDouble (a * b)"

definition jsDiv :: "real \<Rightarrow> real \<Rightarrow> real" where
  "jsDiv a b = roundDouble (a / b)"

definition jsSquare :: "real \<Rightarrow> real" where
  "jsSquare a = roundDouble (a\<^sup>2)"

definition jsSqrt :: "real \<Rightarrow> real" where
  "jsSqrt a = roundDouble (sqrt a)"

section \<open>Gesture classification (\<open>analyzeGesture\<close>, App.tsx lines 125-141)\<close>

text \<open>
  A pointer sample is the object \<open>{x, y}\<close>; it is modelled as the pair \<open>(x, y)\<close>. The
  classification subtracts two coordinates (\<open>dx\<close> and \<open>dy\<close> are rounded differences),
  takes absolute values, multiplies by \<open>1.5\<close> (a rounded product) and compares.
\<close>

type_synonym point = "real \<times> real"

datatype gesture = SWIPE_RIGHT | SWIPE_LEFT | SWIPE_DOWN | SWIPE_UP

text \<open>The two tests of lines 134 and 137, on the magnitudes \<open>absDx\<close> and \<open>absDy\<close>.\<close>

definition horizontalSwipe :: "real \<Rightarrow> real \<Rightarrow> bool" where
  "horizontalSwipe absDx absDy = (absDx > 80 \<and> absDx > jsMul absDy 1.5)"

definition verticalSwipe :: "real \<Rightarrow> real \<Rightarrow> bool" where
  "verticalSwipe absDx absDy = (absDy > 80 \<and> absDy > jsMul absDx 1.5)"

definition analyzeGesture :: "point list \<Rightarrow> gesture option" where
  "analyzeGesture points =
     (if length points < 5 then None
      else
        let start = points ! 0;
            end = points ! (length points - 1);
            dx = jsSub (fst end) (fst start);
            dy = jsSub (snd end) (snd start);
            absDx = \<bar>dx\<bar>;
            absDy = \<bar>dy\<bar>
        in if horizontalSwipe absDx absDy
             then Some (if dx > 0 then SWIPE_RIGHT else SWIPE_LEFT)
           else if verticalSwipe absDx absDy
             then Some (if dy > 0 then SWIPE_DOWN else SWIPE_UP)
           else None)"

section \<open>Errors and outcomes\<close>

text \<open>
  The exceptions of the platform calls the program makes. A call that can throw returns
  \<open>error + 'a\<close> when it has no state, and an \<open>outcome\<close> when it runs on the program
  state: a JavaScript exception does not undo the assignments made before it, so
  \<open>Raised\<close> carries the state reached when the exception left the function.
\<close>

datatype error =
    InvalidCharacterError | RangeError | NotSupportedError | InvalidStateError
  | NotAllowedError | NetworkError | TypeError

datatype 'a outcome = Done 'a | Raised error 'a

fun state_of :: "'a outcome \<Rightarrow> 'a" where
  "state_of (Done s) = s"
| "state_of (Raised e s) = s"

text \<open>Sequencing of statements: the second runs only if the first did not throw.\<close>

definition andThen :: "'a outcome \<Rightarrow> ('a \<Rightarrow> 'a outcome) \<Rightarrow> 'a outcome" where
  "andThen r f = (case r of Done s \<Rightarrow> f s | Raised e s \<Rightarrow> Raised e s)"

text \<open>\<open>try { body } catch (e) { handler }\<close>.\<close>

definition tryCatch :: "('a \<Rightarrow> 'a outcome) \<Rightarrow> (error \<Rightarrow> 'a \<Rightarrow> 'a outcome) \<Rightarrow> 'a \<Rightarrow> 'a outcome" where
  "tryCatch body handler s = (case body s of Done s' \<Rightarrow> Done s' | Raised e s' \<Rightarrow> handler e s')"

text \<open>\<open>xs.forEach(f)\<close>: an exception thrown by \<open>f\<close> ends the iteration.\<close>

fun forEach :: "('b \<Rightarrow> 'a \<Rightarrow> 'a outcome) \<Rightarrow> 'b list \<Rightarrow> 'a \<Rightarrow> 'a outcome" where
  "forEach f [] s = Done s"
| "forEach f (x # xs) s = andThen (f x s) (forEach f xs)"

section \<open>Base64 transport of audio bytes (\<open>encode\<close>, \<open>decode\<close>, App.tsx lines 101-112)\<close>

text \<open>
  A \<open>Uint8Array\<close> is a list of bytes, a JavaScript string a list of 16-bit code units.
  \<open>encode\<close> and \<open>decode\<close> are the repository's; they call the browser's \<open>btoa\<close> and
  \<open>atob\<close>, which are modelled here after their definition in the HTML standard
  (forgiving-base64 encode and decode over the alphabet of RFC 4648):
  \<open>btoa\<close> throws on a code unit above \<open>0xFF\<close> and otherwise encodes three bytes as four
  characters, padding the last group with \<open>=\<close>; \<open>atob\<close> removes ASCII whitespace, removes
  one or two trailing \<open>=\<close> when the length is a multiple of four, throws when the length
  modulo four is one or a character is outside the alphabet, and decodes four characters
  to three bytes, dropping the surplus bits of a last group of two or three characters.
\<close>

type_synonym byte = "8 word"
type_synonym jsstring = "16 word list"

text \<open>
  The alphabet \<open>A-Z a-z 0-9 + /\<close> by character code: \<open>b64char n\<close> is the character of the
  sextet \<open>n\<close>, \<open>b64index c\<close> the sextet of the character \<open>c\<close>; \<open>61\<close> is the padding \<open>=\<close>.
\<close>

definition b64char :: "nat \<Rightarrow> 16 word" where
  "b64char n =
     (if n < 26 then of_nat (65 + n)
      else if n < 52 then of_nat (71 + n)
      else if n < 62 then of_nat (n - 4)
      else if n = 62 then 43
      else 47)"

definition b64index :: "16 word \<Rightarrow> nat option" where
  "b64index c =
     (let u = unat c
      in if 65 \<le> u \<and> u \<le> 90 then Some (u - 65)
         else if 97 \<le> u \<and> u \<le> 122 then Some (u - 71)
         else if 48 \<le> u \<and> u \<le> 57 then Some (u + 4)
         else if u = 43 then Some 62
         else if u = 47 then Some 63
         else None)"

text \<open>Three bytes become four sextets; a last group of one or two bytes is padded.\<close>

fun b64encode :: "byte list \<Rightarrow> jsstring" where
  "b64encode (a # b # c # rest) =
     [b64char (unat a div 4),
      b64char ((unat a mod 4) * 16 + unat b div 16),
      b64char ((unat b mod 16) * 4 + unat c div 64),
      b64char (unat c mod 64)] @ b64encode rest"
| "b64encode [a, b] =
     [b64char (unat a div 4),
      b64char ((unat a mod 4) * 16 + unat b div 16),
      b64char ((unat b mod 16) * 4),
      61]"
| "b64encode [a] =
     [b64char (unat a div 4),
      b64char ((unat a mod 4) * 16),
      61, 61]"
| "b64encode [] = []"

definition btoa :: "jsstring \<Rightarrow> error + jsstring" where
  "btoa data =
     (if list_ex (\<lambda>c. unat c > 255) data then Inl InvalidCharacterError
      else Inr (b64encode (map ucast data)))"

definition isAsciiWhitespace :: "16 word \<Rightarrow> bool" where
  "isAsciiWhitespace c = (c = 9 \<or> c = 10 \<or> c = 12 \<or> c = 13 \<or> c = 32)"

definition stripPadding :: "jsstring \<Rightarrow> jsstring" where
  "stripPadding d =
     (if 2 \<le> length d \<and> last d = 61 \<and> last (butlast d) = 61 then butlast (butlast d)
      else if d \<noteq> [] \<and> last d = 61 then butlast d
      else d)"

fun b64decode :: "nat list \<Rightarrow> byte list" where
  "b64decode (s0 # s1 # s2 # s3 # rest) =
     [of_nat (s0 * 4 + s1 div 16),
      of_nat ((s1 mod 16) * 16 + s2 div 4),
      of_nat ((s2 mod 4) * 64 + s3)] @ b64decode rest"
| "b64decode [s0, s1, s2] =
     [of_nat (s0 * 4 + s1 div 16),
      of_nat ((s1 mod 16) * 16 + s2 div 4)]"
| "b64decode [s0, s1] = [of_nat (s0 * 4 + s1 div 16)]"
| "b64decode [s0] = []"
| "b64decode [] = []"

definition atob :: "jsstring \<Rightarrow> error + jsstring" where
  "atob data =
     (let d1 = filter (\<lambda>c. \<not> isAsciiWhitespace c) data;
          d2 = (if length d1 mod 4 = 0 then stripPadding d1 else d1)
      in if length d2 mod 4 = 1 then Inl InvalidCharacterError
         else case those (map b64index d2) of
                None \<Rightarrow> Inl InvalidCharacterError
              | Some ss \<Rightarrow> Inr (map ucast (b64decode ss)))"

text \<open>
  \<open>encode\<close> (lines 101-105): the loop appends \<open>String.fromCharCode(bytes[i])\<close> to
  \<open>binary\<close>, then \<open>btoa(binary)\<close>. \<open>decode\<close> (lines 107-112): \<open>atob\<close>, a zero-filled
  \<open>Uint8Array\<close> of the string's length, and the loop storing \<open>charCodeAt(i)\<close> at index
  \<open>i\<close> (a store into a \<open>Uint8Array\<close> keeps the low eight bits).
\<close>

definition fromCharCode :: "byte \<Rightarrow> 16 word" where
  "fromCharCode b = ucast b"

definition encode :: "byte list \<Rightarrow> error + jsstring" where
  "encode bytes = btoa (foldl (\<lambda>binary b. binary @ [fromCharCode b]) [] bytes)"

definition decode :: "jsstring \<Rightarrow> error + byte list" where
  "decode base64 =
     (case atob base64 of
        Inl e \<Rightarrow> Inl e
      | Inr binaryString \<Rightarrow>
          Inr (foldl (\<lambda>bytes i. bytes[i := ucast (binaryString ! i)])
                 (replicate (length binaryString) 0) [0..<length binaryString]))"


text \<open>
  For the proofs: the sextets and the padding that \<open>b64encode\<close> produces, apart. The
  encoding is the characters of the sextets followed by the padding.
\<close>

fun sextets :: "byte list \<Rightarrow> nat list" where
  "sextets (a # b # c # rest) =
     [unat a div 4, (unat a mod 4) * 16 + unat b div 16,
      (unat b mod 16) * 4 + unat c div 64, unat c mod 64] @ sextets rest"
| "sextets [a, b] = [unat a div 4, (unat a mod 4) * 16 + unat b div 16, (unat b mod 16) * 4]"
| "sextets [a] = [unat a div 4, (unat a mod 4) * 16]"
| "sextets [] = []"

fun padding :: "byte list \<Rightarrow> jsstring" where
  "padding (a # b # c # rest) = padding rest"
| "padding [a, b] = [61]"
| "padding [a] = [61, 61]"
| "padding [] = []"

section \<open>The application state\<close>

text \<open>
  The component \<open>App\<close> (App.tsx lines 143-182) keeps its state in React state variables,
  in refs and in the module-level set \<open>activeSources\<close>. The record \<open>app\<close> has one field
  for each of them that the modelled functions read or write, under the source's name.

  Five state variables have a ref that an effect (lines 184-190) keeps equal to them
  (\<open>visionActive\<close>, \<open>isNavMode\<close>, \<open>isMapsMode\<close>, \<open>isMicHeld\<close>, \<open>isSpeaking\<close>); each pair is
  one field. An event handler is created anew at every render, so it reads the current
  value of a state variable. A callback handed to \<open>setTimeout\<close> is different: it keeps the
  values of the state variables of the render in which the timer was armed. The model
  stores these captured values in the pending timer (see \<open>callback\<close>).

  The remaining fields are the part of the world the program acts on: the pending
  timers, a supply of fresh identifiers (timer ids start at 1, as in a browser, so an id
  is truthy), the resources that have been stopped or closed, the resources whose stop or
  close throws, the microphone streams acquired, and the calls made to the external
  collaborators (speech synthesis, haptics, media devices, the remote service), the
  connections to the remote service that have been opened, and the utterance that is
  being spoken.
  \<open>intents\<close> is a ghost field: the source dispatches an action directly where a gesture
  is recognised, and the model records at these places which intent of the
  specification was recognised.

  \<open>startVoiceSession\<close> is suspended at each of its three \<open>await\<close>s (lines 266, 276 and
  280): the call returns with the rest of the function pending in \<open>awaiting\<close>, and the
  rest runs when the awaited promise settles, which may be after other events have been
  handled. \<open>closeSession\<close>, the camera request of \<open>startVisionMode\<close> and the decoding in
  \<open>onmessage\<close> run as one step. The two intervals (the frame sampler and the countdown)
  are present by their handle only; their ticks and the capture callback of the
  microphone are not modelled.
\<close>

datatype app_phase = INIT | LANGUAGE_PICKER | CALIBRATION | READY

datatype voice_status = idle | connecting | listening | speaking | error

datatype haptic = light | medium | heavy | double | success

datatype session_mode = VISION | NAV | MAPS

text \<open>The argument of \<open>speakText\<close>: a literal text, or \<open>t(key)\<close>, the string of a key.\<close>

datatype utterance = Text string | Localized string

datatype media_kind = Video | Audio

datatype effect =
    Speak utterance
  | Haptic haptic
  | GetUserMedia media_kind
  | Connect session_mode

datatype intent = Hold | HoldEnd | DoubleTap | Swipe gesture

text \<open>
  The timeouts. \<open>HoldTimeout a\<close> is the callback of line 447 armed in a render where
  \<open>isAnalyzing\<close> was \<open>a\<close>; \<open>TapTimeout g a\<close> is the callback of line 483 armed in a
  render where \<open>isGuidanceActive\<close> was \<open>g\<close> and \<open>isAnalyzing\<close> was \<open>a\<close> (the latter read
  by \<open>describeLocation\<close>); \<open>StepOneTimeout\<close> and \<open>ReadyTimeout\<close> are the callbacks of
  the two timeouts of the calibration prompts (lines 236 and 240). A pending timer is its
  id, the time in milliseconds at which it is due, and its callback.
\<close>

datatype callback = HoldTimeout bool | TapTimeout bool bool | StepOneTimeout | ReadyTimeout

text \<open>
  The second argument of \<open>speakText\<close>, called when the utterance has been spoken: the
  only one in the program arms the timeout that ends the introduction of the
  calibration (line 236).
\<close>

datatype speech_callback = ArmStepOne

text \<open>
  Where a call of \<open>startVoiceSession(mode)\<close> is suspended: at \<open>await closeSession()\<close>, at
  \<open>await getUserMedia\<close>, or at \<open>await ai.live.connect\<close> (with the microphone stream it
  holds in the constant \<open>micStream\<close>).
\<close>

datatype voice_await =
    AwaitClose session_mode
  | AwaitMic session_mode
  | AwaitConnect session_mode nat

type_synonym timer = "nat \<times> int \<times> callback"

definition timerId :: "timer \<Rightarrow> nat" where
  "timerId tm = fst tm"

definition due :: "timer \<Rightarrow> int" where
  "due tm = fst (snd tm)"

definition timerCallback :: "timer \<Rightarrow> callback" where
  "timerCallback tm = snd (snd tm)"

text \<open>
  An \<open>AudioBufferSourceNode\<close> that has been started: its identity, the time passed to
  \<open>start\<close> and the duration of its buffer.
\<close>

record source =
  sid :: nat
  startTime :: real
  bufferDuration :: real

record app =
  appState :: app_phase
  calibrationStep :: nat
  voiceStatus :: voice_status
  isSpeaking :: bool
  isMicHeld :: bool
  visionActive :: bool
  isNavMode :: bool
  isMapsMode :: bool
  isBlank :: bool
  isGuidanceActive :: bool
  gestureTrail :: "point list"
  countdown :: "nat option"
  isAnalyzing :: bool
  currentSessionRef :: "nat option"
  audioContextInRef :: "nat option"
  audioContextOutRef :: "nat option"
  nextStartTimeRef :: real
  isCountingDownRef :: bool
  initialOrientation :: "(real \<times> real \<times> real) option"
  lastPromptTime :: int
  tapCountRef :: nat
  tapTimerRef :: "nat option"
  pointsRef :: "point list"
  holdTimerRef :: "nat option"
  videoSrcObject :: "nat option"
  frameIntervalRef :: "nat option"
  activeSources :: "source list"
  timers :: "timer list"
  nextId :: nat
  released :: "nat set"
  faulty :: "nat set"
  micStreams :: "nat list"
  liveSessions :: "nat list"
  awaiting :: "(nat \<times> voice_await) list"
  currentUtterance :: "(utterance \<times> speech_callback option) option"
  effects :: "effect list"
  intents :: "intent list"

text \<open>The state after the first render: the initial values of lines 144-182.\<close>

definition initialApp :: app where
  "initialApp =
     \<lparr> appState = INIT, calibrationStep = 0, voiceStatus = idle, isSpeaking = False,
       isMicHeld = False, visionActive = False, isNavMode = False, isMapsMode = False,
       isBlank = False, isGuidanceActive = False, gestureTrail = [], countdown = None,
       isAnalyzing = False, currentSessionRef = None, audioContextInRef = None,
       audioContextOutRef = None, nextStartTimeRef = 0, isCountingDownRef = False,
       initialOrientation = None, lastPromptTime = 0, tapCountRef = 0, tapTimerRef = None,
       pointsRef = [], holdTimerRef = None, videoSrcObject = None, frameIntervalRef = None,
       activeSources = [], timers = [], nextId = 1, released = {}, faulty = {},
       micStreams = [], liveSessions = [], awaiting = [], currentUtterance = None,
       effects = [], intents = [] \<rparr>"

text \<open>
  What the environment answers when the program asks: whether the camera and the
  microphone are granted, whether the connection to the remote service succeeds, and
  whether the \<open>video\<close> element is mounted (\<open>videoRef.current\<close> is not null).
\<close>

record env =
  cameraGranted :: bool
  micGranted :: bool
  connectOk :: bool
  videoMounted :: bool

subsection \<open>Collaborators and platform calls\<close>

text \<open>
  \<open>playHaptic\<close> (lines 82-93): the call is recorded. \<open>speakText\<close> (lines 197-203): the
  call is recorded, and the new utterance replaces the one being spoken.
  \<open>speechSynthesis.cancel()\<close> removes that one without an \<open>end\<close> event (the Web Speech
  API gives it an \<open>error\<close> event), so its callback is dropped. \<open>speakTextThen\<close> is
  \<open>speakText\<close> called with a callback.
\<close>

definition playHaptic :: "haptic \<Rightarrow> app \<Rightarrow> app" where
  "playHaptic type s = s\<lparr>effects := effects s @ [Haptic type]\<rparr>"

definition speakText :: "utterance \<Rightarrow> app \<Rightarrow> app" where
  "speakText text s =
     s\<lparr>effects := effects s @ [Speak text], currentUtterance := Some (text, None)\<rparr>"

definition speakTextThen :: "utterance \<Rightarrow> speech_callback \<Rightarrow> app \<Rightarrow> app" where
  "speakTextThen text callback s =
     s\<lparr>effects := effects s @ [Speak text], currentUtterance := Some (text, Some callback)\<rparr>"

definition recordIntent :: "intent \<Rightarrow> app \<Rightarrow> app" where
  "recordIntent i s = s\<lparr>intents := intents s @ [i]\<rparr>"

text \<open>A new object or handle: the next identifier.\<close>

definition fresh :: "app \<Rightarrow> nat \<times> app" where
  "fresh s = (nextId s, s\<lparr>nextId := Suc (nextId s)\<rparr>)"

text \<open>
  \<open>window.setTimeout(cb, delay)\<close> called at time \<open>now\<close>, and \<open>clearTimeout(id)\<close>, which
  does nothing when no pending timer has that id.
\<close>

definition setTimeout :: "callback \<Rightarrow> int \<Rightarrow> int \<Rightarrow> app \<Rightarrow> nat \<times> app" where
  "setTimeout cb delay now s =
     (nextId s, s\<lparr>timers := timers s @ [(nextId s, now + delay, cb)], nextId := Suc (nextId s)\<rparr>)"

definition clearTimeout :: "nat \<Rightarrow> app \<Rightarrow> app" where
  "clearTimeout i s = s\<lparr>timers := filter (\<lambda>tm. timerId tm \<noteq> i) (timers s)\<rparr>"

text \<open>
  \<open>stop()\<close> of a playback source, \<open>close()\<close> of the remote session and \<open>close()\<close> of an
  audio context: the call throws for a resource in \<open>faulty\<close> (closing an audio context
  that is already closed, for instance, is rejected with \<open>InvalidStateError\<close>) and
  otherwise stops or closes the resource.
\<close>

definition release :: "nat \<Rightarrow> app \<Rightarrow> app outcome" where
  "release r s =
     (if r \<in> faulty s then Raised InvalidStateError s
      else Done (s\<lparr>released := insert r (released s)\<rparr>))"

section \<open>The audio session\<close>

subsection \<open>Teardown (\<open>stopAllAudio\<close>, lines 95-99, and \<open>closeSession\<close>, lines 257-263)\<close>

definition stopAllAudio :: "app \<Rightarrow> app outcome" where
  "stopAllAudio s =
     andThen
       (forEach (\<lambda>src. tryCatch (release (sid src)) (\<lambda>e. Done)) (activeSources s) s)
       (\<lambda>s1. Done (s1\<lparr>activeSources := []\<rparr>))"

definition closeSession :: "app \<Rightarrow> app outcome" where
  "closeSession s =
     andThen (stopAllAudio s) (\<lambda>s1.
     andThen
       (case currentSessionRef s1 of
          None \<Rightarrow> Done s1
        | Some session \<Rightarrow>
            andThen (tryCatch (release session) (\<lambda>e. Done) s1)
              (\<lambda>s'. Done (s'\<lparr>currentSessionRef := None\<rparr>))) (\<lambda>s2.
     andThen
       (case audioContextInRef s2 of
          None \<Rightarrow> Done s2
        | Some ctx \<Rightarrow>
            andThen (tryCatch (release ctx) (\<lambda>e. Done) s2)
              (\<lambda>s'. Done (s'\<lparr>audioContextInRef := None\<rparr>))) (\<lambda>s3.
     andThen
       (case audioContextOutRef s3 of
          None \<Rightarrow> Done s3
        | Some ctx \<Rightarrow>
            andThen (tryCatch (release ctx) (\<lambda>e. Done) s3)
              (\<lambda>s'. Done (s'\<lparr>audioContextOutRef := None\<rparr>))) (\<lambda>s4.
     Done (s4\<lparr>nextStartTimeRef := 0\<rparr>)))))"

text \<open>
  For stating what a teardown achieves: the resources a session holds (the scheduled
  playback sources, the remote session, the two audio contexts), and the state in which
  each resource of a list is released unless its stop or close throws.
\<close>

definition sessionResources :: "app \<Rightarrow> nat list" where
  "sessionResources s =
     map sid (activeSources s)
     @ (case currentSessionRef s of None \<Rightarrow> [] | Some r \<Rightarrow> [r])
     @ (case audioContextInRef s of None \<Rightarrow> [] | Some r \<Rightarrow> [r])
     @ (case audioContextOutRef s of None \<Rightarrow> [] | Some r \<Rightarrow> [r])"

definition releaseAll :: "nat list \<Rightarrow> app \<Rightarrow> app" where
  "releaseAll rs s = s\<lparr>released := released s \<union> (set rs - faulty s)\<rparr>"

subsection \<open>Playback (\<open>decodeAudioData\<close>, lines 114-123, and \<open>onmessage\<close>, lines 297-312)\<close>

text \<open>
  \<open>new Int16Array(data.buffer)\<close> throws a \<open>RangeError\<close> when the byte length is odd, and
  \<open>createBuffer\<close> a \<open>NotSupportedError\<close> when the number of frames is zero. A sample is
  two bytes, the low byte first. The duration of an \<open>AudioBuffer\<close> is its length in
  frames over its sample rate, as a double.
\<close>

record audio_buffer =
  frameCount :: nat
  sampleRate :: nat
  channelData :: "real list list"

definition int16At :: "byte list \<Rightarrow> nat \<Rightarrow> int" where
  "int16At data k = sint (word_cat (data ! (2 * k + 1)) (data ! (2 * k)) :: 16 word)"

definition duration :: "audio_buffer \<Rightarrow> real" where
  "duration buffer = jsDiv (real (frameCount buffer)) (real (sampleRate buffer))"

definition decodeAudioData :: "byte list \<Rightarrow> nat \<Rightarrow> nat \<Rightarrow> error + audio_buffer" where
  "decodeAudioData data rate numChannels =
     (if odd (length data) then Inl RangeError
      else
        let n = length data div 2;
            frames = n div numChannels
        in if frames = 0 then Inl NotSupportedError
           else Inr \<lparr> frameCount = frames, sampleRate = rate,
                      channelData =
                        map (\<lambda>channel.
                               map (\<lambda>i. real_of_int (int16At data (i * numChannels + channel)) / 32768)
                                 [0..<frames])
                          [0..<numChannels] \<rparr>)"

text \<open>
  \<open>onmessage\<close>, for a message whose first part carries the base64 string \<open>audioData\<close>
  (\<open>None\<close> when the optional chain of line 298 gives \<open>undefined\<close>; an empty string is
  falsy), received when the clock of the output context reads \<open>currentTime\<close>. The
  exceptions of \<open>decode\<close> and \<open>decodeAudioData\<close> are not caught: they leave the callback
  after the cursor has been clamped. The cursor \<open>nextStartTimeRef\<close> is advanced by
  \<open>+=\<close>, a rounded sum.
\<close>

definition onmessage :: "real \<Rightarrow> jsstring option \<Rightarrow> app \<Rightarrow> app outcome" where
  "onmessage currentTime audioData s =
     (case audioData of
        None \<Rightarrow> Done s
      | Some base64 \<Rightarrow>
          if base64 = [] then Done s
          else case audioContextOutRef s of
            None \<Rightarrow> Done s
          | Some ctx \<Rightarrow>
              let s1 = (if \<not> isSpeaking s then s\<lparr>isSpeaking := True\<rparr> else s);
                  s2 = s1\<lparr>nextStartTimeRef := max (nextStartTimeRef s1) currentTime\<rparr>
              in case decode base64 of
                   Inl e \<Rightarrow> Raised e s2
                 | Inr data \<Rightarrow>
                     (case decodeAudioData data 24000 1 of
                        Inl e \<Rightarrow> Raised e s2
                      | Inr buffer \<Rightarrow>
                          (case fresh s2 of
                             (node, s3) \<Rightarrow>
                               let src = \<lparr> sid = node, startTime = nextStartTimeRef s3,
                                           bufferDuration = duration buffer \<rparr>;
                                   s4 = s3\<lparr>nextStartTimeRef := jsAdd (nextStartTimeRef s3) (duration buffer)\<rparr>
                               in Done (s4\<lparr>activeSources := activeSources s4 @ [src]\<rparr>))))"

text \<open>The \<open>onended\<close> callback of a source (line 307).\<close>

definition onended :: "nat \<Rightarrow> app \<Rightarrow> app" where
  "onended node s =
     (let s1 = s\<lparr>activeSources := filter (\<lambda>src. sid src \<noteq> node) (activeSources s)\<rparr>
      in if length (activeSources s1) = 0 then s1\<lparr>isSpeaking := False\<rparr> else s1)"

subsection \<open>Opening a session (\<open>startVoiceSession\<close>, lines 265-325)\<close>

text \<open>
  A call of \<open>startVoiceSession\<close> runs in four pieces. The call itself runs
  \<open>closeSession\<close> and is suspended at line 266. Each later piece runs when the promise
  it awaits has settled:

    \<^item> after \<open>closeSession\<close>: the status becomes connecting and the microphone is
      requested (line 276);

    \<^item> after the microphone request: a denial is caught and the status goes back to idle;
      otherwise the stream is held by the constant \<open>micStream\<close> only, the two audio
      contexts are created and stored in their refs, and the connection is requested
      (line 280);

    \<^item> after the connection request: a failure is caught in the same way, the two new
      contexts staying in their refs; otherwise the connection is open, \<open>onopen\<close> sets
      the status to listening and builds the capture chain on
      \<open>audioContextInRef.current\<close>, and the session is stored in \<open>currentSessionRef\<close>
      (line 323). When that ref is null, \<open>onopen\<close> throws a \<open>TypeError\<close> inside the
      library that called it; the model ends the call there, with the connection open
      and not stored.

  \<open>suspend\<close> registers the rest of a call under a fresh id, and \<open>settle\<close> runs the rest
  registered under an id. The refs are read and written by each piece when it runs.
\<close>

definition suspend :: "voice_await \<Rightarrow> app \<Rightarrow> app" where
  "suspend rest s = s\<lparr>awaiting := awaiting s @ [(nextId s, rest)], nextId := Suc (nextId s)\<rparr>"

definition startVoiceSession :: "session_mode \<Rightarrow> app \<Rightarrow> app" where
  "startVoiceSession mode s =
     (case closeSession s of
        Done s1 \<Rightarrow> suspend (AwaitClose mode) s1
      | Raised e s1 \<Rightarrow> s1)"

fun resumeVoiceSession :: "env \<Rightarrow> voice_await \<Rightarrow> app \<Rightarrow> app outcome" where
  "resumeVoiceSession env (AwaitClose mode) s =
     (let s1 = s\<lparr>voiceStatus := connecting\<rparr>;
          s2 = s1\<lparr>effects := effects s1 @ [GetUserMedia Audio]\<rparr>
      in Done (suspend (AwaitMic mode) s2))"
| "resumeVoiceSession env (AwaitMic mode) s =
     (if \<not> micGranted env then Done (s\<lparr>voiceStatus := idle\<rparr>)
      else case fresh s of (micStream, s1) \<Rightarrow>
           case fresh (s1\<lparr>micStreams := micStreams s1 @ [micStream]\<rparr>) of (ctxIn, s2) \<Rightarrow>
           case fresh (s2\<lparr>audioContextInRef := Some ctxIn\<rparr>) of (ctxOut, s3) \<Rightarrow>
             let s4 = s3\<lparr>audioContextOutRef := Some ctxOut\<rparr>;
                 s5 = s4\<lparr>effects := effects s4 @ [Connect mode]\<rparr>
             in Done (suspend (AwaitConnect mode micStream) s5))"
| "resumeVoiceSession env (AwaitConnect mode micStream) s =
     (if \<not> connectOk env then Done (s\<lparr>voiceStatus := idle\<rparr>)
      else case fresh s of (session, s1) \<Rightarrow>
           let s2 = s1\<lparr>liveSessions := liveSessions s1 @ [session]\<rparr>;
               s3 = s2\<lparr>voiceStatus := listening\<rparr>
           in case audioContextInRef s3 of
                None \<Rightarrow> Raised TypeError s3
              | Some ctx \<Rightarrow> Done (s3\<lparr>currentSessionRef := Some session\<rparr>))"

definition settle :: "env \<Rightarrow> nat \<Rightarrow> app \<Rightarrow> app" where
  "settle env call s =
     (case map_of (awaiting s) call of
        None \<Rightarrow> s
      | Some rest \<Rightarrow>
          state_of (resumeVoiceSession env rest
                      (s\<lparr>awaiting := filter (\<lambda>a. fst a \<noteq> call) (awaiting s)\<rparr>)))"

section \<open>Interaction modes\<close>

text \<open>\<open>stopCameraStream\<close> (lines 246-255): the tracks of the camera stream are stopped.\<close>

definition stopCameraStream :: "app \<Rightarrow> app" where
  "stopCameraStream s =
     (let s1 = (case videoSrcObject s of
                  None \<Rightarrow> s
                | Some stream \<Rightarrow> s\<lparr>released := insert stream (released s), videoSrcObject := None\<rparr>);
          s2 = s1\<lparr>frameIntervalRef := None\<rparr>
      in s2\<lparr>visionActive := False\<rparr>)"

text \<open>
  \<open>startVisionMode\<close> (lines 327-347). The four mode flags are cleared before the \<open>try\<close>.
  Inside it the camera is requested; when that is denied the \<open>catch\<close> plays the heavy
  haptic and speaks the denial. Otherwise the stream is attached if the video element is
  mounted, the frame sampler is installed (replacing the handle of an earlier one) and
  \<open>startVoiceSession\<close> is called without \<open>await\<close>: the call returns at its first
  suspension, and nothing it throws reaches the \<open>catch\<close>.
\<close>

definition startVisionMode :: "env \<Rightarrow> app \<Rightarrow> app" where
  "startVisionMode env s =
     (let s1 = speakText (Text ''Vision Mode'') s;
          s2 = s1\<lparr>isNavMode := False, isMapsMode := False, isGuidanceActive := False,
                  isBlank := False\<rparr>;
          s3 = s2\<lparr>effects := effects s2 @ [GetUserMedia Video]\<rparr>
      in if \<not> cameraGranted env
         then speakText (Text ''Camera access denied.'') (playHaptic heavy s3)
         else case fresh s3 of (stream, s4) \<Rightarrow>
           let s5 = (if videoMounted env
                     then playHaptic medium (s4\<lparr>videoSrcObject := Some stream, visionActive := True\<rparr>)
                     else s4)
           in case fresh s5 of (interval, s6) \<Rightarrow>
                startVoiceSession VISION (s6\<lparr>frameIntervalRef := Some interval\<rparr>))"

text \<open>\<open>startNavigatorMode\<close> (lines 349-355) and \<open>startMapsMode\<close> (lines 357-363).\<close>

definition startNavigatorMode :: "app \<Rightarrow> app" where
  "startNavigatorMode s =
     (let s1 = speakText (Text ''Navigator Mode'') s;
          s2 = (if visionActive s1 then stopCameraStream s1 else s1);
          s3 = s2\<lparr>isNavMode := True, isMapsMode := False, isGuidanceActive := False,
                  isBlank := False\<rparr>;
          s4 = playHaptic heavy s3
      in startVoiceSession NAV s4)"

definition startMapsMode :: "app \<Rightarrow> app" where
  "startMapsMode s =
     (let s1 = speakText (Text ''Maps Mode'') s;
          s2 = (if visionActive s1 then stopCameraStream s1 else s1);
          s3 = s2\<lparr>isMapsMode := True, isNavMode := False, isGuidanceActive := False,
                  isBlank := False\<rparr>;
          s4 = playHaptic medium s3
      in startVoiceSession MAPS s4)"

text \<open>
  \<open>describeLocation\<close> (lines 365-397) up to the geolocation request, and
  \<open>triggerCountdownDescription\<close> (lines 399-436) up to the installation of its interval.
  \<open>describeLocation\<close> reads the state variable \<open>isAnalyzing\<close> of the render that created
  it, given here as \<open>isAnalyzing0\<close>. The later callbacks of both (the position, the
  answer of the service, the ticks of the countdown) are not modelled.
\<close>

definition describeLocation :: "bool \<Rightarrow> app \<Rightarrow> app" where
  "describeLocation isAnalyzing0 s =
     (if isAnalyzing0 then s
      else playHaptic light (speakText (Localized ''describe_location'') (s\<lparr>isAnalyzing := True\<rparr>)))"

definition triggerCountdownDescription :: "app \<Rightarrow> app" where
  "triggerCountdownDescription s =
     (if isCountingDownRef s then s
      else playHaptic light
             (speakText (Text ''3'') (s\<lparr>isCountingDownRef := True, countdown := Some 3\<rparr>)))"

text \<open>
  The interaction mode of the specification, read off the flags in the order in which
  the view tests them (lines 578 and 649).
\<close>

datatype interaction_mode = Idle | Vision | Navigator | Maps | Blank

definition interactionMode :: "app \<Rightarrow> interaction_mode" where
  "interactionMode s =
     (if isBlank s then Blank
      else if isNavMode s then Navigator
      else if isMapsMode s then Maps
      else if visionActive s then Vision
      else Idle)"

section \<open>Calibration (lines 205-244, 497-504 and 568-573)\<close>

text \<open>
  The listener \<open>handleOrientation\<close> is registered only while the phase is calibration.
  An event carries the three angles, each of which may be null; \<open>now\<close> is \<open>Date.now()\<close>.
  The first complete reading becomes the baseline. After that, a reading less than
  2500 ms after the time in \<open>lastPromptTime\<close> is dropped, and otherwise the step advances
  when the difference to the baseline (a rounded difference) passes the threshold of the
  current step. \<open>advance\<close> is the only place that writes \<open>lastPromptTime\<close>.
\<close>

type_synonym orientation_event = "real option \<times> real option \<times> real option"

definition advance :: "int \<Rightarrow> real \<times> real \<times> real \<Rightarrow> app \<Rightarrow> app" where
  "advance now angles s =
     (let s1 = s\<lparr>lastPromptTime := now\<rparr>;
          s2 = s1\<lparr>initialOrientation := Some angles\<rparr>;
          s3 = playHaptic medium s2
      in s3\<lparr>calibrationStep := calibrationStep s3 + 1\<rparr>)"

definition handleOrientation :: "int \<Rightarrow> orientation_event \<Rightarrow> app \<Rightarrow> app" where
  "handleOrientation now event s =
     (if appState s \<noteq> CALIBRATION then s
      else case event of
        (Some alpha, Some beta, Some gamma) \<Rightarrow>
          (case initialOrientation s of
             None \<Rightarrow> s\<lparr>initialOrientation := Some (alpha, beta, gamma)\<rparr>
           | Some (alpha0, beta0, gamma0) \<Rightarrow>
               let dAlpha = jsSub alpha alpha0;
                   dBeta = jsSub beta beta0
               in if now - lastPromptTime s < 2500 then s
                  else if calibrationStep s = 1
                    then (if dAlpha < - 25 \<or> dAlpha > 335 then advance now (alpha, beta, gamma) s else s)
                  else if calibrationStep s = 2
                    then (if dAlpha > 25 \<or> dAlpha < - 335 then advance now (alpha, beta, gamma) s else s)
                  else if calibrationStep s = 3
                    then (if dBeta < - 20 then advance now (alpha, beta, gamma) s else s)
                  else if calibrationStep s = 4
                    then (if dBeta > 20 then advance now (alpha, beta, gamma) s else s)
                  else s)
      | _ \<Rightarrow> s)"


text \<open>
  The prompts (the effect of lines 232-244, which React runs after a render in which the
  phase or the step has changed). At step 0 the introduction is spoken, and its end arms
  a timeout of 2000 ms whose callback sets the step to 1: this advance is made by a
  timer, not by \<open>advance\<close>, and leaves \<open>lastPromptTime\<close> and the baseline as they are. At
  the steps 1 to 5 the prompt of the step is spoken; at step 5 a timeout of 2500 ms is
  armed whose callback enters the ready phase.
\<close>

definition calibrationKeys :: "string list" where
  "calibrationKeys =
     [''calibration_start'', ''calibration_right'', ''calibration_left'', ''calibration_up'',
      ''calibration_down'', ''calibration_done'']"

definition calibrationPrompt :: "int \<Rightarrow> app \<Rightarrow> app" where
  "calibrationPrompt now s =
     (if appState s \<noteq> CALIBRATION then s
      else if calibrationStep s = 0
        then speakTextThen (Localized (calibrationKeys ! 0)) ArmStepOne s
      else if calibrationStep s < length calibrationKeys
        then (let s1 = speakText (Localized (calibrationKeys ! calibrationStep s)) s
              in if calibrationStep s = length calibrationKeys - 1
                 then snd (setTimeout ReadyTimeout 2500 now s1)
                 else s1)
      else s)"

definition afterRender :: "int \<Rightarrow> app \<Rightarrow> app \<Rightarrow> app" where
  "afterRender now before s =
     (if appState s \<noteq> appState before \<or> calibrationStep s \<noteq> calibrationStep before
      then calibrationPrompt now s
      else s)"

text \<open>
  The \<open>end\<close> event of the utterance being spoken, at time \<open>now\<close>, and the callbacks of the
  two timeouts.
\<close>

definition speechEnd :: "int \<Rightarrow> app \<Rightarrow> app" where
  "speechEnd now s =
     (case currentUtterance s of
        None \<Rightarrow> s
      | Some (text, callback) \<Rightarrow>
          let s1 = s\<lparr>currentUtterance := None\<rparr>
          in case callback of
               None \<Rightarrow> s1
             | Some ArmStepOne \<Rightarrow> snd (setTimeout StepOneTimeout 2000 now s1))"

definition stepOneTimeout :: "app \<Rightarrow> app" where
  "stepOneTimeout s = s\<lparr>calibrationStep := 1\<rparr>"

definition readyTimeout :: "app \<Rightarrow> app" where
  "readyTimeout s = playHaptic success (s\<lparr>appState := READY\<rparr>)"

text \<open>
  \<open>requestOrientationAndSetLang\<close> (lines 497-504), the click handler of a language: the
  permission request of line 499 is answered within the step, and its failure is caught.
  The click handler of the skip button (line 569), rendered in the calibration phase.
\<close>

definition requestOrientationAndSetLang :: "app \<Rightarrow> app" where
  "requestOrientationAndSetLang s =
     playHaptic medium (s\<lparr>appState := CALIBRATION, calibrationStep := 0\<rparr>)"

definition skipCalibration :: "app \<Rightarrow> app" where
  "skipCalibration s =
     speakText (Text ''Calibration skipped.'') (playHaptic success (s\<lparr>appState := READY\<rparr>))"

section \<open>The gesture engine\<close>

subsection \<open>Pointer handlers (lines 438-495)\<close>

text \<open>
  \<open>handlePointerDown\<close> at time \<open>now\<close> with the sample \<open>p\<close>: outside the ready phase nothing
  happens, a blank screen is left, and otherwise the trace starts and the hold timer of
  450 ms is armed. Its callback captures \<open>isAnalyzing\<close>.
\<close>

definition handlePointerDown :: "int \<Rightarrow> point \<Rightarrow> app \<Rightarrow> app" where
  "handlePointerDown now p s =
     (if appState s \<noteq> READY then s
      else if isBlank s then playHaptic medium (s\<lparr>isBlank := False\<rparr>)
      else
        let s1 = s\<lparr>pointsRef := [p], gestureTrail := [p]\<rparr>
        in case setTimeout (HoldTimeout (isAnalyzing s)) 450 now s1 of
             (timer, s2) \<Rightarrow> s2\<lparr>holdTimerRef := Some timer\<rparr>)"

text \<open>
  The callback of the hold timer (lines 447-450). \<open>isSpeakingRef.current\<close> and
  \<open>isCountingDownRef.current\<close> are read when the timer fires. \<open>isAnalyzing\<close> is the
  constant that \<open>useState\<close> bound on line 158 in the render that created this
  \<open>handlePointerDown\<close>; the arrow function of line 447 closes over that binding, so what
  it reads at 450 ms is \<open>isAnalyzing0\<close>, the value at pointer-down.
\<close>

definition holdTimeout :: "bool \<Rightarrow> app \<Rightarrow> app" where
  "holdTimeout isAnalyzing0 s =
     (if isSpeaking s \<or> isCountingDownRef s \<or> isAnalyzing0 then s
      else recordIntent Hold (playHaptic double (s\<lparr>isMicHeld := True\<rparr>)))"

text \<open>
  The test of line 457, for the sample \<open>p\<close> of the event and the first sample of the
  trace: \<open>Math.sqrt(Math.pow(p.x - first.x, 2) + Math.pow(p.y - first.y, 2)) > 30\<close>,
  each operation rounded.
\<close>

definition movedBeyondHold :: "point \<Rightarrow> point \<Rightarrow> bool" where
  "movedBeyondHold p first =
     (jsSqrt (jsAdd (jsSquare (jsSub (fst p) (fst first)))
                    (jsSquare (jsSub (snd p) (snd first)))) > 30)"

text \<open>
  \<open>handlePointerMove\<close>: the sample is appended, the trail keeps its last 30 samples, and
  a distance of more than 30 from the first sample cancels the hold timer.
\<close>

definition handlePointerMove :: "point \<Rightarrow> app \<Rightarrow> app" where
  "handlePointerMove p s =
     (if appState s \<noteq> READY \<or> length (pointsRef s) = 0 \<or> isBlank s then s
      else
        let s1 = s\<lparr>pointsRef := pointsRef s @ [p]\<rparr>;
            trail = gestureTrail s1 @ [p];
            s2 = s1\<lparr>gestureTrail := drop (length trail - 30) trail\<rparr>;
            first = pointsRef s2 ! 0
        in if movedBeyondHold p first
           then (case holdTimerRef s2 of
                   None \<Rightarrow> s2
                 | Some timer \<Rightarrow> (clearTimeout timer s2)\<lparr>holdTimerRef := None\<rparr>)
           else s2)"

text \<open>
  The callback of the tap timer (lines 483-491), with the captured values of
  \<open>isGuidanceActive\<close> and \<open>isAnalyzing\<close>: a count of exactly two dispatches the
  double-tap action of the current mode, and the count is reset.
\<close>

definition tapTimeout :: "env \<Rightarrow> bool \<Rightarrow> bool \<Rightarrow> app \<Rightarrow> app" where
  "tapTimeout env isGuidanceActive0 isAnalyzing0 s =
     (let s1 =
        (if tapCountRef s = 2 then
           (let s' = recordIntent DoubleTap s
            in if isNavMode s' then
                 (let s'' = playHaptic success (s'\<lparr>isGuidanceActive := \<not> isGuidanceActive0\<rparr>)
                  in if isGuidanceActive0 then speakText (Localized ''guidance_start'') s'' else s'')
               else if isMapsMode s' then describeLocation isAnalyzing0 s'
               else if visionActive s' then triggerCountdownDescription s'
               else startVisionMode env s')
         else s)
      in s1\<lparr>tapCountRef := 0\<rparr>)"

text \<open>
  \<open>handlePointerUp\<close> at time \<open>now\<close>: the hold timer is cancelled; a held microphone is
  released; otherwise the trace is classified, a swipe starts its mode (unless that mode
  is already active) or blanks the screen, and anything else counts as a tap, which
  re-arms the tap timer of 300 ms. The trace and the trail are cleared in every case.
\<close>

definition handlePointerUp :: "env \<Rightarrow> int \<Rightarrow> app \<Rightarrow> app" where
  "handlePointerUp env now s =
     (if appState s \<noteq> READY \<or> isBlank s then s
      else
        let s1 = (case holdTimerRef s of
                    None \<Rightarrow> s
                  | Some timer \<Rightarrow> (clearTimeout timer s)\<lparr>holdTimerRef := None\<rparr>);
            s2 =
              (if isMicHeld s1 then recordIntent HoldEnd (playHaptic light (s1\<lparr>isMicHeld := False\<rparr>))
               else case analyzeGesture (pointsRef s1) of
                   Some SWIPE_RIGHT \<Rightarrow>
                     (let s' = recordIntent (Swipe SWIPE_RIGHT) s1
                      in if \<not> isNavMode s' then startNavigatorMode s' else s')
                 | Some SWIPE_LEFT \<Rightarrow>
                     (let s' = recordIntent (Swipe SWIPE_LEFT) s1
                      in if \<not> visionActive s' then startVisionMode env s' else s')
                 | Some SWIPE_DOWN \<Rightarrow>
                     (let s' = recordIntent (Swipe SWIPE_DOWN) s1
                      in if \<not> isMapsMode s' then startMapsMode s' else s')
                 | Some SWIPE_UP \<Rightarrow>
                     (let s' = stopCameraStream (recordIntent (Swipe SWIPE_UP) s1);
                          s'' = s'\<lparr>isNavMode := False, isMapsMode := False,
                                   isGuidanceActive := False\<rparr>;
                          s''' = state_of (closeSession s'')
                      in playHaptic heavy (s'''\<lparr>isBlank := True\<rparr>))
                 | None \<Rightarrow>
                     (let s' = s1\<lparr>tapCountRef := tapCountRef s1 + 1\<rparr>;
                          s'' = (case tapTimerRef s' of
                                   None \<Rightarrow> s'
                                 | Some timer \<Rightarrow> clearTimeout timer s')
                      in case setTimeout (TapTimeout (isGuidanceActive s) (isAnalyzing s)) 300 now s'' of
                           (timer, s''') \<Rightarrow> s'''\<lparr>tapTimerRef := Some timer\<rparr>))
        in s2\<lparr>pointsRef := [], gestureTrail := []\<rparr>)"

section \<open>Events in time\<close>

text \<open>
  What happens to the program, each with its time in milliseconds: the pointer events,
  the passing of time until \<open>t\<close> with no input (\<open>Elapse t\<close>), the settling of the promise
  that a suspended call of \<open>startVoiceSession\<close> awaits, an orientation event, the end of
  the utterance being spoken, and the clicks on a language and on the skip button,
  which are rendered in the language picker and in the calibration phase only.

  A pending timer fires once, when the time has reached its due time and it has not been
  cleared before. Before an event that happens at time \<open>t\<close> is handled, the timers due at
  \<open>t\<close> or earlier fire, the earliest first; a callback that needs the time is given the
  due time of its timer. After a handler or callback of the calibration has changed the
  phase or the step, the effect of the prompts runs.
\<close>

datatype event =
    PointerDown int point
  | PointerMove int point
  | PointerUp int
  | Elapse int
  | Settled int nat
  | Orientation int orientation_event
  | SpeechEnd int
  | SelectLanguage int
  | SkipCalibration int

fun eventTime :: "event \<Rightarrow> int" where
  "eventTime (PointerDown t p) = t"
| "eventTime (PointerMove t p) = t"
| "eventTime (PointerUp t) = t"
| "eventTime (Elapse t) = t"
| "eventTime (Settled t call) = t"
| "eventTime (Orientation t reading) = t"
| "eventTime (SpeechEnd t) = t"
| "eventTime (SelectLanguage t) = t"
| "eventTime (SkipCalibration t) = t"

fun runCallback :: "env \<Rightarrow> int \<Rightarrow> callback \<Rightarrow> app \<Rightarrow> app" where
  "runCallback env now (HoldTimeout a) s = holdTimeout a s"
| "runCallback env now (TapTimeout g a) s = tapTimeout env g a s"
| "runCallback env now StepOneTimeout s = afterRender now s (stepOneTimeout s)"
| "runCallback env now ReadyTimeout s = afterRender now s (readyTimeout s)"

definition fireTimer :: "env \<Rightarrow> timer \<Rightarrow> app \<Rightarrow> app" where
  "fireTimer env tm s =
     (if tm \<in> set (timers s)
      then runCallback env (due tm) (timerCallback tm) (s\<lparr>timers := remove1 tm (timers s)\<rparr>)
      else s)"

definition fireDue :: "env \<Rightarrow> int \<Rightarrow> app \<Rightarrow> app" where
  "fireDue env t s = fold (fireTimer env) (sort_key due (filter (\<lambda>tm. due tm \<le> t) (timers s))) s"

fun handleEvent :: "env \<Rightarrow> event \<Rightarrow> app \<Rightarrow> app" where
  "handleEvent env (PointerDown t p) s = handlePointerDown t p s"
| "handleEvent env (PointerMove t p) s = handlePointerMove p s"
| "handleEvent env (PointerUp t) s = handlePointerUp env t s"
| "handleEvent env (Elapse t) s = s"
| "handleEvent env (Settled t call) s = settle env call s"
| "handleEvent env (Orientation t reading) s = afterRender t s (handleOrientation t reading s)"
| "handleEvent env (SpeechEnd t) s = speechEnd t s"
| "handleEvent env (SelectLanguage t) s =
     (if appState s = LANGUAGE_PICKER then afterRender t s (requestOrientationAndSetLang s) else s)"
| "handleEvent env (SkipCalibration t) s =
     (if appState s = CALIBRATION then afterRender t s (skipCalibration s) else s)"

definition step :: "env \<Rightarrow> event \<Rightarrow> app \<Rightarrow> app" where
  "step env ev s = handleEvent env ev (fireDue env (eventTime ev) s)"

definition run :: "env \<Rightarrow> event list \<Rightarrow> app \<Rightarrow> app" where
  "run env evs s = fold (step env) evs s"

section \<open>Example states and inputs\<close>

text \<open>The states and inputs at which the theorems below are instantiated.\<close>

text \<open>
  Five samples whose first and last horizontal coordinates are the doubles written
  \<open>0.6666666666666666\<close> and \<open>80.66666666666667\<close> in JavaScript, on one line; and five
  samples from the origin to a point whose coordinates are the doubles next above 96 by
  two units in the last place and next above 64 by one.
\<close>

definition roundedSwipe :: "point list" where
  "roundedSwipe =
     [(6004799503160661 / 2 ^ 53, 0), (20, 0), (40, 0), (60, 0),
      (5676412030331563 / 2 ^ 46, 0)]"

definition roundedProductSwipe :: "point list" where
  "roundedProductSwipe =
     [(0, 0), (20, 15), (40, 30), (60, 45), (96 + 1 / 2 ^ 45, 64 + 1 / 2 ^ 46)]"





definition allGranted :: env where
  "allGranted = \<lparr>cameraGranted = True, micGranted = True, connectOk = True, videoMounted = True\<rparr>"

text \<open>
  A session whose output context is open and has nothing scheduled, a chunk of two
  silent frames (four zero bytes, the base64 string \<open>AAAAAA==\<close>) and a chunk of one
  silent frame (two zero bytes, \<open>AAA=\<close>).
\<close>

definition playingSession :: app where
  "playingSession =
     initialApp\<lparr>currentSessionRef := Some 4, audioContextInRef := Some 2,
                audioContextOutRef := Some 3, micStreams := [1], liveSessions := [4],
                nextId := 5, voiceStatus := listening\<rparr>"

definition silentChunk :: jsstring where
  "silentChunk = b64encode [0, 0, 0, 0]"

definition oneFrameChunk :: jsstring where
  "oneFrameChunk = b64encode [0, 0]"

text \<open>
  The ready phase, as the first render reaches it when a language is saved (line 524),
  and the environments in which everything is granted or the camera is denied.
\<close>

definition readyApp :: app where
  "readyApp = initialApp\<lparr>appState := READY\<rparr>"

definition cameraDenied :: env where
  "cameraDenied = \<lparr>cameraGranted = False, micGranted = True, connectOk = True, videoMounted = True\<rparr>"

text \<open>Navigator mode, entered from the ready phase.\<close>

definition navigatorApp :: app where
  "navigatorApp = startNavigatorMode readyApp"

text \<open>
  A swipe down (five samples, 120 units down) that enters maps mode, two quick taps, and
  a third press that is held without moving. The tap timer of the second tap is due at
  1450, the hold timer of the third press at 1650.
\<close>

definition swipeDownThenDoubleTapThenPress :: "event list" where
  "swipeDownThenDoubleTapThenPress =
     [PointerDown 0 (100, 100), PointerMove 10 (100, 130), PointerMove 20 (100, 160),
      PointerMove 30 (100, 190), PointerMove 40 (100, 220), PointerUp 50,
      PointerDown 1000 (100, 100), PointerUp 1050,
      PointerDown 1100 (100, 100), PointerUp 1150,
      PointerDown 1200 (100, 100)]"

text \<open>
  A swipe to the right at \<open>t\<close> (five samples, 120 units) and a swipe down at \<open>t\<close>. The
  first starts navigator mode and the second maps mode; each calls \<open>startVoiceSession\<close>.
\<close>

definition swipeRight :: "int \<Rightarrow> event list" where
  "swipeRight t =
     [PointerDown t (100, 100), PointerMove (t + 10) (130, 100), PointerMove (t + 20) (160, 100),
      PointerMove (t + 30) (190, 100), PointerMove (t + 40) (220, 100), PointerUp (t + 50)]"

definition swipeDown :: "int \<Rightarrow> event list" where
  "swipeDown t =
     [PointerDown t (100, 100), PointerMove (t + 10) (100, 130), PointerMove (t + 20) (100, 160),
      PointerMove (t + 30) (100, 190), PointerMove (t + 40) (100, 220), PointerUp (t + 50)]"

text \<open>
  Two sessions opened one after the other: the swipe to the right at 0, whose call is
  suspended under the ids 2, 3 and 7 and opens the connection 8, and then the swipe down
  at 2000, whose call is suspended under the ids 10, 11 and 15.
\<close>

definition consecutiveSessions :: "event list" where
  "consecutiveSessions =
     swipeRight 0 @ [Settled 60 2, Settled 500 3, Settled 900 7]
     @ swipeDown 2000 @ [Settled 2060 10, Settled 2500 11, Settled 2900 15]"

text \<open>
  Two sessions opened in overlap: the swipe down comes at 600, while the first call is
  waiting for its connection (id 7). The second call is suspended under the ids 9, 10
  and 14. The first connection is open at 800 and the second at 900.
\<close>

definition overlappingSessions :: "event list" where
  "overlappingSessions =
     swipeRight 0 @ [Settled 60 2, Settled 500 3]
     @ swipeDown 600 @ [Settled 660 9, Settled 700 10, Settled 800 7, Settled 900 14]"

section \<open>Taps\<close>




definition pressFrame :: "app \<Rightarrow> app" where
  "pressFrame s = s\<lparr>pointsRef := [], gestureTrail := [], holdTimerRef := None, timers := []\<rparr>"


section \<open>Properties of the rounding\<close>

text \<open>
  The rounded value lies within half a unit in the last place of the exact one, the
  rounding is monotone and odd, and it leaves every integer below \<open>2 ^ 53\<close> as it is.
\<close>

lemma roundHalfEven_lower: "m - 1 / 2 \<le> of_int (roundHalfEven m)"
  unfolding roundHalfEven_def Let_def by (auto; linarith)

lemma roundHalfEven_upper: "of_int (roundHalfEven m) \<le> m + 1 / 2"
  unfolding roundHalfEven_def Let_def by (auto; linarith)

lemma roundHalfEven_of_int: "roundHalfEven (of_int n) = n"
  by (simp add: roundHalfEven_def)

lemma roundHalfEven_floor: "\<lfloor>m\<rfloor> \<le> roundHalfEven m \<and> roundHalfEven m \<le> \<lfloor>m\<rfloor> + 1"
  by (simp add: roundHalfEven_def Let_def)

lemma roundHalfEven_mono:
  assumes "m \<le> n"
  shows "roundHalfEven m \<le> roundHalfEven n"
proof (cases "\<lfloor>m\<rfloor> = \<lfloor>n\<rfloor>")
  case True
  then have "m - of_int \<lfloor>m\<rfloor> \<le> n - of_int \<lfloor>n\<rfloor>" using assms by simp
  then show ?thesis
    unfolding roundHalfEven_def Let_def True by auto
next
  case False
  have "\<lfloor>m\<rfloor> \<le> \<lfloor>n\<rfloor>" using assms by (rule floor_mono)
  with False have "\<lfloor>m\<rfloor> + 1 \<le> \<lfloor>n\<rfloor>" by simp
  then show ?thesis
    using roundHalfEven_floor [of m] roundHalfEven_floor [of n] by linarith
qed

lemma ulp_pos: "0 < ulp x"
  by (simp add: ulp_def)

lemma ulp_minus: "ulp (- x) = ulp x"
  by (simp add: ulp_def)

lemma ulp_abs: "ulp \<bar>x\<bar> = ulp x"
  by (simp add: ulp_def)

lemma binade_bounds:
  assumes "x \<noteq> 0"
  shows "2 powr 52 * ulp x \<le> \<bar>x\<bar>" and "\<bar>x\<bar> < 2 powr 53 * ulp x"
proof -
  let ?e = "of_int \<lfloor>log 2 \<bar>x\<bar>\<rfloor> :: real"
  have pos: "0 < \<bar>x\<bar>" using assms by simp
  have "2 powr 52 * ulp x = 2 powr ?e"
    unfolding ulp_def powr_add [symmetric] by simp
  also have "\<dots> \<le> 2 powr (log 2 \<bar>x\<bar>)"
    by (simp del: powr_log_cancel)
  also have "\<dots> = \<bar>x\<bar>" using pos by simp
  finally show "2 powr 52 * ulp x \<le> \<bar>x\<bar>" .
  have "\<bar>x\<bar> = 2 powr (log 2 \<bar>x\<bar>)" using pos by simp
  also have "\<dots> < 2 powr (?e + 1)"
    by (simp del: powr_log_cancel; linarith)
  also have "\<dots> = 2 powr 53 * ulp x"
    unfolding ulp_def powr_add [symmetric] by (simp add: add.commute)
  finally show "\<bar>x\<bar> < 2 powr 53 * ulp x" .
qed

lemma ulp_unique:
  assumes "2 powr of_int k \<le> \<bar>x\<bar>" "\<bar>x\<bar> < 2 powr (of_int k + 1)"
  shows "ulp x = 2 powr (of_int k - 52)"
proof -
  have pos: "0 < \<bar>x\<bar>"
    using assms(1) by (smt (verit) powr_gt_zero)
  have "\<lfloor>log 2 \<bar>x\<bar>\<rfloor> = k"
  proof (rule floor_unique)
    show "of_int k \<le> log 2 \<bar>x\<bar>" using assms(1) pos by (simp add: le_log_iff)
    show "log 2 \<bar>x\<bar> < of_int k + 1" using assms(2) pos by (simp add: log_less_iff)
  qed
  then show ?thesis by (simp add: ulp_def)
qed

lemma roundDouble_minus: "roundDouble (- x) = - roundDouble x"
  by (simp add: roundDouble_def ulp_minus sgn_minus)

lemma roundDouble_pos:
  "0 < x \<Longrightarrow> roundDouble x = of_int (roundHalfEven (x / ulp x)) * ulp x"
  by (simp add: roundDouble_def)

lemma roundDouble_zero: "roundDouble 0 = 0"
  by (simp add: roundDouble_def)

lemma roundDouble_error_pos:
  assumes "0 < x"
  shows "\<bar>roundDouble x - x\<bar> \<le> ulp x / 2"
proof -
  let ?q = "ulp x"
  let ?m = "x / ?q"
  have q: "0 < ?q" by (rule ulp_pos)
  have x: "x = ?m * ?q" using q by simp
  have "\<bar>of_int (roundHalfEven ?m) - ?m\<bar> \<le> 1 / 2"
    using roundHalfEven_lower [of ?m] roundHalfEven_upper [of ?m] by linarith
  then have "\<bar>of_int (roundHalfEven ?m) - ?m\<bar> * ?q \<le> 1 / 2 * ?q"
    using q by (intro mult_right_mono) simp_all
  moreover have "\<bar>roundDouble x - x\<bar> = \<bar>of_int (roundHalfEven ?m) - ?m\<bar> * ?q"
  proof -
    have "roundDouble x - x = (of_int (roundHalfEven ?m) - ?m) * ?q"
      unfolding roundDouble_pos [OF assms] using q by (simp add: algebra_simps)
    then show ?thesis using q by (simp add: abs_mult)
  qed
  ultimately show ?thesis by simp
qed

lemma roundDouble_error: "\<bar>roundDouble x - x\<bar> \<le> \<bar>x\<bar> / 2 ^ 53"
proof -
  have pos: "\<bar>roundDouble y - y\<bar> \<le> \<bar>y\<bar> / 2 ^ 53" if "0 < y" for y
  proof -
    have "2 powr 52 * ulp y \<le> \<bar>y\<bar>" using binade_bounds(1) [of y] that by simp
    then have "ulp y * 2 ^ 52 \<le> \<bar>y\<bar>" by (simp add: mult.commute)
    then have "ulp y / 2 \<le> \<bar>y\<bar> / 2 ^ 53" by (simp add: field_simps)
    with roundDouble_error_pos [OF that] show ?thesis by linarith
  qed
  consider "0 < x" | "x = 0" | "x < 0" by linarith
  then show ?thesis
  proof cases
    case 1 then show ?thesis by (rule pos)
  next
    case 2 then show ?thesis by (simp add: roundDouble_zero)
  next
    case 3
    then have "\<bar>roundDouble (- x) - (- x)\<bar> \<le> \<bar>- x\<bar> / 2 ^ 53" by (intro pos) simp
    then show ?thesis by (simp add: roundDouble_minus abs_minus_commute)
  qed
qed

lemma roundDouble_range_pos:
  assumes "0 < x"
  shows "2 powr 52 * ulp x \<le> roundDouble x" and "roundDouble x \<le> 2 powr 53 * ulp x"
proof -
  let ?q = "ulp x"
  let ?m = "x / ?q"
  have q: "0 < ?q" by (rule ulp_pos)
  have lo: "2 ^ 52 \<le> ?m" and hi: "?m \<le> 2 ^ 53"
    using binade_bounds [of x] assms q by (simp_all add: field_simps)
  have "roundHalfEven (of_int (2 ^ 52)) \<le> roundHalfEven ?m"
    by (rule roundHalfEven_mono) (use lo in simp)
  then have "(2 ^ 52 :: int) \<le> roundHalfEven ?m"
    by (simp only: roundHalfEven_of_int)
  then have "(2 ^ 52 :: real) \<le> of_int (roundHalfEven ?m)"
    by (metis of_int_le_iff of_int_numeral of_int_power)
  then have "2 ^ 52 * ?q \<le> of_int (roundHalfEven ?m) * ?q"
    using q by (intro mult_right_mono) simp_all
  then show "2 powr 52 * ulp x \<le> roundDouble x"
    unfolding roundDouble_pos [OF assms] by simp
  have "roundHalfEven ?m \<le> roundHalfEven (of_int (2 ^ 53))"
    by (rule roundHalfEven_mono) (use hi in simp)
  then have "roundHalfEven ?m \<le> (2 ^ 53 :: int)"
    by (simp only: roundHalfEven_of_int)
  then have "of_int (roundHalfEven ?m) \<le> (2 ^ 53 :: real)"
    by (metis of_int_le_iff of_int_numeral of_int_power)
  then have "of_int (roundHalfEven ?m) * ?q \<le> 2 ^ 53 * ?q"
    using q by (intro mult_right_mono) simp_all
  then show "roundDouble x \<le> 2 powr 53 * ulp x"
    unfolding roundDouble_pos [OF assms] by simp
qed

lemma roundDouble_nonneg: "0 \<le> x \<Longrightarrow> 0 \<le> roundDouble x"
proof (cases "x = 0")
  case True then show ?thesis by (simp add: roundDouble_zero)
next
  case False
  assume "0 \<le> x"
  with False have x: "0 < x" by simp
  have "0 \<le> 2 powr 52 * ulp x" using ulp_pos [of x] by simp
  with roundDouble_range_pos(1) [OF x] show ?thesis by linarith
qed

lemma ulp_mono:
  assumes "0 < x" "x \<le> y"
  shows "ulp x \<le> ulp y"
proof -
  have "log 2 \<bar>x\<bar> \<le> log 2 \<bar>y\<bar>" using assms by simp
  then have "\<lfloor>log 2 \<bar>x\<bar>\<rfloor> \<le> \<lfloor>log 2 \<bar>y\<bar>\<rfloor>" by (rule floor_mono)
  then show ?thesis by (simp add: ulp_def)
qed

lemma ulp_step:
  assumes "ulp x < ulp y"
  shows "2 * ulp x \<le> ulp y"
proof -
  let ?a = "real_of_int \<lfloor>log 2 \<bar>x\<bar>\<rfloor> - 52"
  let ?b = "real_of_int \<lfloor>log 2 \<bar>y\<bar>\<rfloor> - 52"
  have "\<lfloor>log 2 \<bar>x\<bar>\<rfloor> < \<lfloor>log 2 \<bar>y\<bar>\<rfloor>" using assms by (simp add: ulp_def)
  then have "?a + 1 \<le> ?b" by linarith
  then have "(2::real) powr (?a + 1) \<le> 2 powr ?b"
    by (simp only: powr_le_cancel_iff one_less_numeral_iff semiring_norm)
  also have "(2::real) powr (?a + 1) = 2 * 2 powr ?a"
    by (simp only: powr_add powr_one zero_le_numeral mult.commute)
  finally show ?thesis by (simp only: ulp_def)
qed

lemma roundDouble_mono_pos:
  assumes "0 < x" "x \<le> y"
  shows "roundDouble x \<le> roundDouble y"
proof (cases "ulp x = ulp y")
  case True
  have y: "0 < y" using assms by simp
  have "x / ulp y \<le> y / ulp y"
    using assms ulp_pos [of y] by (simp add: divide_right_mono)
  then have "roundHalfEven (x / ulp y) \<le> roundHalfEven (y / ulp y)"
    by (rule roundHalfEven_mono)
  then have "(of_int (roundHalfEven (x / ulp y)) :: real) \<le> of_int (roundHalfEven (y / ulp y))"
    by simp
  then have "of_int (roundHalfEven (x / ulp y)) * ulp y \<le> of_int (roundHalfEven (y / ulp y)) * ulp y"
    using ulp_pos [of y] by (intro mult_right_mono) simp_all
  then show ?thesis
    unfolding roundDouble_pos [OF assms(1)] roundDouble_pos [OF y] True .
next
  case False
  have y: "0 < y" using assms by simp
  from False ulp_mono [OF assms] have "ulp x < ulp y" by simp
  then have "2 * ulp x \<le> ulp y" by (rule ulp_step)
  then have "2 powr 53 * ulp x \<le> 2 powr 52 * ulp y" by simp
  with roundDouble_range_pos(2) [OF assms(1)] roundDouble_range_pos(1) [OF y]
  show ?thesis by linarith
qed

lemma roundDouble_mono:
  assumes "x \<le> y"
  shows "roundDouble x \<le> roundDouble y"
proof -
  consider "0 < x" | "x \<le> 0" "0 \<le> y" | "y < 0" using assms by linarith
  then show ?thesis
  proof cases
    case 1 then show ?thesis using assms by (rule roundDouble_mono_pos)
  next
    case 2
    have "0 \<le> roundDouble (- x)" using 2 by (intro roundDouble_nonneg) simp
    then have "roundDouble x \<le> 0" by (simp add: roundDouble_minus)
    also have "0 \<le> roundDouble y" using 2 by (intro roundDouble_nonneg)
    finally show ?thesis .
  next
    case 3
    then have "roundDouble (- y) \<le> roundDouble (- x)"
      using assms by (intro roundDouble_mono_pos) simp_all
    then show ?thesis by (simp add: roundDouble_minus)
  qed
qed

lemma roundDouble_exact_pos:
  assumes "0 < x" and "x / ulp x = of_int n"
  shows "roundDouble x = x"
proof -
  have "roundDouble x = of_int n * ulp x"
    unfolding roundDouble_pos [OF assms(1)] assms(2) roundHalfEven_of_int ..
  also have "\<dots> = x" using assms(2) ulp_pos [of x] by (simp add: field_simps)
  finally show ?thesis .
qed

lemma roundDouble_of_nat_pos:
  assumes "0 < n" "n < 2 ^ 53"
  shows "roundDouble (real n) = real n"
proof -
  let ?x = "real n"
  let ?e = "\<lfloor>log 2 \<bar>?x\<bar>\<rfloor>"
  have x: "0 < ?x" using assms by simp
  have "1 \<le> ?x" using assms by simp
  then have "0 \<le> log 2 ?x" by simp
  then have e0: "0 \<le> ?e" by simp
  have "?x < 2 powr 53" using assms(2)
    by (metis of_nat_less_iff of_nat_numeral of_nat_power powr_numeral zero_le_numeral)
  then have "log 2 ?x < 53" using x by (simp add: log_less_iff)
  then have e52: "?e \<le> 52" by simp
  define j where "j = nat (52 - ?e)"
  have "1 / ulp ?x = 2 powr (52 - of_int ?e)"
    by (simp add: ulp_def powr_diff)
  also have "52 - of_int ?e = real j" using e52 by (simp add: j_def)
  also have "2 powr (real j) = 2 ^ j" by (simp add: powr_realpow)
  finally have "1 / ulp ?x = 2 ^ j" .
  then have "?x / ulp ?x = ?x * 2 ^ j"
    by (metis divide_inverse mult_1 times_divide_eq_right divide_inverse_commute inverse_eq_divide)
  then have "?x / ulp ?x = of_int (int n * 2 ^ j)" by simp
  with x show ?thesis by (rule roundDouble_exact_pos)
qed

lemma roundDouble_of_int:
  assumes "\<bar>n\<bar> < 2 ^ 53"
  shows "roundDouble (of_int n) = of_int n"
proof -
  consider "0 < n" | "n = 0" | "n < 0" by linarith
  then show ?thesis
  proof cases
    case 1
    then have "roundDouble (real (nat n)) = real (nat n)"
      using assms by (intro roundDouble_of_nat_pos) (simp_all add: nat_less_iff)
    with 1 show ?thesis by simp
  next
    case 2 then show ?thesis by (simp add: roundDouble_zero)
  next
    case 3
    then have "roundDouble (real (nat (- n))) = real (nat (- n))"
      using assms by (intro roundDouble_of_nat_pos) (simp_all add: nat_less_iff)
    with 3 have "roundDouble (- of_int n) = - of_int n" by simp
    then show ?thesis by (simp add: roundDouble_minus)
  qed
qed

lemma roundDouble_numeral:
  "numeral k < (2 ^ 53 :: int) \<Longrightarrow> roundDouble (numeral k) = numeral k"
  using roundDouble_of_int [of "numeral k"] by simp

lemma roundDouble_neg_numeral:
  "numeral k < (2 ^ 53 :: int) \<Longrightarrow> roundDouble (- numeral k) = - numeral k"
  using roundDouble_of_int [of "- numeral k"] by simp

lemma roundDouble_one: "roundDouble 1 = 1"
  using roundDouble_of_int [of 1] by simp

lemma roundDouble_eval:
  assumes "0 < x" "2 powr of_int k \<le> x" "x < 2 powr (of_int k + 1)"
  shows "roundDouble x = of_int (roundHalfEven (x / 2 powr (of_int k - 52))) * 2 powr (of_int k - 52)"
proof -
  have "ulp x = 2 powr (of_int k - 52)"
    using assms by (intro ulp_unique) simp_all
  then show ?thesis by (simp add: roundDouble_pos [OF assms(1)])
qed

lemma roundHalfEven_eval:
  assumes "of_int f \<le> m" "m < of_int f + 1 / 2"
  shows "roundHalfEven m = f"
proof -
  have "\<lfloor>m\<rfloor> = f" using assms by (intro floor_unique) simp_all
  then show ?thesis using assms by (simp add: roundHalfEven_def Let_def)
qed

lemma roundHalfEven_half:
  assumes "m = of_int f + 1 / 2"
  shows "roundHalfEven m = (if even f then f else f + 1)"
proof -
  have "\<lfloor>m\<rfloor> = f" using assms by (intro floor_unique) simp_all
  then show ?thesis using assms by (simp add: roundHalfEven_def Let_def)
qed

text \<open>A multiple of the unit in the last place of its binade is a double.\<close>

lemma roundDouble_in_binade:
  assumes "2 powr of_int k \<le> x" "x < 2 powr (of_int k + 1)"
      and "x / 2 powr (of_int k - 52) = of_int n"
  shows "roundDouble x = x"
proof -
  have pos: "0 < x" using assms(1) by (smt (verit) powr_gt_zero)
  have "roundDouble x = of_int (roundHalfEven (x / 2 powr (of_int k - 52))) * 2 powr (of_int k - 52)"
    using pos assms(1,2) by (rule roundDouble_eval)
  also have "\<dots> = x"
    unfolding assms(3) roundHalfEven_of_int using assms(3) by (simp add: field_simps)
  finally show ?thesis .
qed

lemmas roundDouble_simps =
  roundDouble_zero roundDouble_one roundDouble_numeral roundDouble_neg_numeral

lemma roundDouble_positive: "0 < x \<Longrightarrow> 0 < roundDouble x"
proof -
  assume x: "0 < x"
  have "0 < 2 powr 52 * ulp x" using ulp_pos [of x] by simp
  with roundDouble_range_pos(1) [OF x] show ?thesis by linarith
qed

section \<open>Properties of the gesture classification\<close>

lemma first_last_samples:
  "5 \<le> length points \<Longrightarrow> points ! 0 = hd points \<and> points ! (length points - 1) = last points"
  by (cases points) (auto simp: last_conv_nth)

text \<open>The rounded product with \<open>1.5\<close> is not below the factor.\<close>

lemma jsMul_ge:
  assumes "0 \<le> b"
  shows "b \<le> jsMul b 1.5"
proof -
  have "\<bar>roundDouble (b * 1.5) - b * 1.5\<bar> \<le> \<bar>b * 1.5\<bar> / 2 ^ 53"
    by (rule roundDouble_error)
  then have "b * 1.5 - b * 1.5 / 2 ^ 53 \<le> roundDouble (b * 1.5)"
    using assms by (simp add: abs_if split: if_splits)
  moreover have "b \<le> b * 1.5 - b * 1.5 / 2 ^ 53"
    using assms by simp
  ultimately show ?thesis
    unfolding jsMul_def by linarith
qed

lemma swipe_tests_exclusive:
  assumes "0 \<le> a" "0 \<le> b"
  shows "\<not> (horizontalSwipe a b \<and> verticalSwipe a b)"
  using jsMul_ge [OF assms(1)] jsMul_ge [OF assms(2)]
  by (auto simp: horizontalSwipe_def verticalSwipe_def)

lemma analyzeGesture_tests:
  assumes "5 \<le> length points"
  shows "analyzeGesture points =
      (let dx = jsSub (fst (last points)) (fst (hd points));
           dy = jsSub (snd (last points)) (snd (hd points))
       in if horizontalSwipe \<bar>dx\<bar> \<bar>dy\<bar> then Some (if dx > 0 then SWIPE_RIGHT else SWIPE_LEFT)
          else if verticalSwipe \<bar>dx\<bar> \<bar>dy\<bar> then Some (if dy > 0 then SWIPE_DOWN else SWIPE_UP)
          else None)"
proof -
  have ends: "points ! 0 = hd points" "points ! (length points - 1) = last points"
    using first_last_samples [OF assms] by simp_all
  show ?thesis
    using assms unfolding analyzeGesture_def ends Let_def by simp
qed

text \<open>
  Claim C1, as stated, at two inputs where it fails. Both traces have five samples and
  end points whose coordinates are doubles.

  In the first, on one line, the horizontal displacement is above 80 (by less than a
  unit in the last place of 80) and above 1.5 times the vertical displacement, which is
  zero. The claim gives a swipe to the right. The difference the program computes is
  the nearest double, which is 80, and the result is null.

  In the second, the horizontal displacement is above 80 and above 1.5 times the
  vertical one. The claim gives a swipe to the right. The product the program computes
  is the nearest double, which is the horizontal displacement itself, and the result is
  null.
\<close>

theorem analyzeGesture_rounding_counterexample:
  "5 \<le> length roundedSwipe
   \<and> roundDouble (fst (hd roundedSwipe)) = fst (hd roundedSwipe)
   \<and> roundDouble (fst (last roundedSwipe)) = fst (last roundedSwipe)
   \<and> \<bar>fst (last roundedSwipe) - fst (hd roundedSwipe)\<bar> > 80
   \<and> \<bar>fst (last roundedSwipe) - fst (hd roundedSwipe)\<bar>
        > 1.5 * \<bar>snd (last roundedSwipe) - snd (hd roundedSwipe)\<bar>
   \<and> fst (last roundedSwipe) - fst (hd roundedSwipe) > 0
   \<and> jsSub (fst (last roundedSwipe)) (fst (hd roundedSwipe)) = 80
   \<and> analyzeGesture roundedSwipe = None
   \<and> 5 \<le> length roundedProductSwipe
   \<and> roundDouble (fst (last roundedProductSwipe)) = fst (last roundedProductSwipe)
   \<and> roundDouble (snd (last roundedProductSwipe)) = snd (last roundedProductSwipe)
   \<and> \<bar>fst (last roundedProductSwipe) - fst (hd roundedProductSwipe)\<bar> > 80
   \<and> \<bar>fst (last roundedProductSwipe) - fst (hd roundedProductSwipe)\<bar>
        > 1.5 * \<bar>snd (last roundedProductSwipe) - snd (hd roundedProductSwipe)\<bar>
   \<and> fst (last roundedProductSwipe) - fst (hd roundedProductSwipe) > 0
   \<and> jsMul \<bar>snd (last roundedProductSwipe) - snd (hd roundedProductSwipe)\<bar> 1.5
        = \<bar>fst (last roundedProductSwipe) - fst (hd roundedProductSwipe)\<bar>
   \<and> analyzeGesture roundedProductSwipe = None"
proof -
  let ?a = "6004799503160661 / 2 ^ 53 :: real"
  let ?b = "5676412030331563 / 2 ^ 46 :: real"
  have ends: "hd roundedSwipe = (?a, 0)" "last roundedSwipe = (?b, 0)"
    and len: "5 \<le> length roundedSwipe"
    by (simp_all add: roundedSwipe_def)
  have a: "roundDouble ?a = ?a"
    by (rule roundDouble_in_binade [where k = "- 1" and n = 6004799503160661])
       (simp_all add: powr_neg_numeral)
  have b: "roundDouble ?b = ?b"
    by (rule roundDouble_in_binade [where k = 6 and n = 5676412030331563])
       (simp_all add: powr_neg_numeral)
  have dx: "jsSub ?b ?a = 80"
  proof -
    have r: "roundHalfEven ((?b - ?a) / 2 powr (of_int 6 - 52)) = 80 * 2 ^ 46"
      by (rule roundHalfEven_eval) (simp_all add: powr_neg_numeral)
    have "roundDouble (?b - ?a) =
        of_int (roundHalfEven ((?b - ?a) / 2 powr (of_int 6 - 52))) * 2 powr (of_int 6 - 52)"
      by (rule roundDouble_eval) simp_all
    also have "\<dots> = 80"
      unfolding r by (simp add: powr_neg_numeral)
    finally show ?thesis by (simp only: jsSub_def)
  qed
  have dy: "jsSub 0 0 = 0"
    by (simp add: jsSub_def roundDouble_zero)
  have none: "analyzeGesture roundedSwipe = None"
    unfolding analyzeGesture_tests [OF len] ends fst_conv snd_conv dx dy Let_def
    by (simp add: horizontalSwipe_def verticalSwipe_def)
  have exact: "\<bar>?b - ?a\<bar> > 80" "?b - ?a > 0"
    by simp_all
  have first: "5 \<le> length roundedSwipe
   \<and> roundDouble (fst (hd roundedSwipe)) = fst (hd roundedSwipe)
   \<and> roundDouble (fst (last roundedSwipe)) = fst (last roundedSwipe)
   \<and> \<bar>fst (last roundedSwipe) - fst (hd roundedSwipe)\<bar> > 80
   \<and> \<bar>fst (last roundedSwipe) - fst (hd roundedSwipe)\<bar>
        > 1.5 * \<bar>snd (last roundedSwipe) - snd (hd roundedSwipe)\<bar>
   \<and> fst (last roundedSwipe) - fst (hd roundedSwipe) > 0
   \<and> jsSub (fst (last roundedSwipe)) (fst (hd roundedSwipe)) = 80
   \<and> analyzeGesture roundedSwipe = None"
    unfolding ends fst_conv snd_conv using len a b dx none exact by simp
  let ?x = "96 + 1 / 2 ^ 45 :: real"
  let ?y = "64 + 1 / 2 ^ 46 :: real"
  have ends': "hd roundedProductSwipe = (0, 0)" "last roundedProductSwipe = (?x, ?y)"
    and len': "5 \<le> length roundedProductSwipe"
    by (simp_all add: roundedProductSwipe_def)
  have x: "roundDouble ?x = ?x"
    by (rule roundDouble_in_binade [where k = 6 and n = "96 * 2 ^ 46 + 2"])
       (simp_all add: powr_neg_numeral)
  have y: "roundDouble ?y = ?y"
    by (rule roundDouble_in_binade [where k = 6 and n = "64 * 2 ^ 46 + 1"])
       (simp_all add: powr_neg_numeral)
  have prod: "jsMul ?y 1.5 = ?x"
  proof -
    let ?p = "?y * 1.5"
    have "roundHalfEven (?p / 2 powr (of_int 6 - 52))
        = (if even (96 * 2 ^ 46 + 1 :: int) then 96 * 2 ^ 46 + 1 else 96 * 2 ^ 46 + 1 + 1)"
      by (rule roundHalfEven_half) (simp add: powr_neg_numeral)
    then have r: "roundHalfEven (?p / 2 powr (of_int 6 - 52)) = 96 * 2 ^ 46 + 2"
      by simp
    have "roundDouble ?p =
        of_int (roundHalfEven (?p / 2 powr (of_int 6 - 52))) * 2 powr (of_int 6 - 52)"
      by (rule roundDouble_eval) simp_all
    also have "\<dots> = ?x"
      unfolding r by (simp add: powr_neg_numeral)
    finally show ?thesis by (simp only: jsMul_def)
  qed
  have dx': "jsSub ?x 0 = ?x" and dy': "jsSub ?y 0 = ?y"
    using x y by (simp_all add: jsSub_def)
  have pos: "\<bar>?x\<bar> = ?x" "\<bar>?y\<bar> = ?y" by simp_all
  have none': "analyzeGesture roundedProductSwipe = None"
    unfolding analyzeGesture_tests [OF len'] ends' fst_conv snd_conv dx' dy' Let_def
      horizontalSwipe_def verticalSwipe_def pos prod
    by simp
  have exact': "\<bar>?x - 0\<bar> > 80" "\<bar>?x - 0\<bar> > 1.5 * \<bar>?y - 0\<bar>" "?x - 0 > 0"
    by simp_all
  have prod': "jsMul \<bar>?y - 0\<bar> 1.5 = \<bar>?x - 0\<bar>"
    using prod by simp
  have second: "5 \<le> length roundedProductSwipe
   \<and> roundDouble (fst (last roundedProductSwipe)) = fst (last roundedProductSwipe)
   \<and> roundDouble (snd (last roundedProductSwipe)) = snd (last roundedProductSwipe)
   \<and> \<bar>fst (last roundedProductSwipe) - fst (hd roundedProductSwipe)\<bar> > 80
   \<and> \<bar>fst (last roundedProductSwipe) - fst (hd roundedProductSwipe)\<bar>
        > 1.5 * \<bar>snd (last roundedProductSwipe) - snd (hd roundedProductSwipe)\<bar>
   \<and> fst (last roundedProductSwipe) - fst (hd roundedProductSwipe) > 0
   \<and> jsMul \<bar>snd (last roundedProductSwipe) - snd (hd roundedProductSwipe)\<bar> 1.5
        = \<bar>fst (last roundedProductSwipe) - fst (hd roundedProductSwipe)\<bar>
   \<and> analyzeGesture roundedProductSwipe = None"
    unfolding ends' fst_conv snd_conv
    by (intro conjI len' x y exact' prod' none')
  from first second show ?thesis by (simp only: simp_thms)
qed

text \<open>
  Claim C1, amended. A trace of fewer than 5 samples is no swipe. For a trace of at least
  5 samples, with \<open>dx\<close> and \<open>dy\<close> the differences between the last and the first sample
  as the program computes them (rounded to the nearest double), and with the products
  by \<open>1.5\<close> rounded in the same way: if \<open>|dx| > 80\<close> and \<open>|dx| > 1.5 |dy|\<close> the result is
  \<open>SWIPE_RIGHT\<close> when \<open>dx > 0\<close> and \<open>SWIPE_LEFT\<close> otherwise; if \<open>|dy| > 80\<close> and
  \<open>|dy| > 1.5 |dx|\<close> the result is \<open>SWIPE_DOWN\<close> when \<open>dy > 0\<close> and \<open>SWIPE_UP\<close> otherwise;
  in every remaining case the result is null.
\<close>

theorem analyzeGesture_classification:
  fixes points :: "point list"
  assumes dx: "dx = jsSub (fst (last points)) (fst (hd points))"
      and dy: "dy = jsSub (snd (last points)) (snd (hd points))"
  shows "(length points < 5 \<longrightarrow> analyzeGesture points = None)
       \<and> (5 \<le> length points \<and> \<bar>dx\<bar> > 80 \<and> \<bar>dx\<bar> > jsMul \<bar>dy\<bar> 1.5
            \<longrightarrow> analyzeGesture points = Some (if dx > 0 then SWIPE_RIGHT else SWIPE_LEFT))
       \<and> (5 \<le> length points \<and> \<bar>dy\<bar> > 80 \<and> \<bar>dy\<bar> > jsMul \<bar>dx\<bar> 1.5
            \<longrightarrow> analyzeGesture points = Some (if dy > 0 then SWIPE_DOWN else SWIPE_UP))
       \<and> (5 \<le> length points \<and> \<not> (\<bar>dx\<bar> > 80 \<and> \<bar>dx\<bar> > jsMul \<bar>dy\<bar> 1.5)
              \<and> \<not> (\<bar>dy\<bar> > 80 \<and> \<bar>dy\<bar> > jsMul \<bar>dx\<bar> 1.5)
            \<longrightarrow> analyzeGesture points = None)"
proof (cases "length points < 5")
  case True
  then show ?thesis by (simp add: analyzeGesture_def)
next
  case False
  then have len: "5 \<le> length points" by simp
  have H: "horizontalSwipe \<bar>dx\<bar> \<bar>dy\<bar> = (\<bar>dx\<bar> > 80 \<and> \<bar>dx\<bar> > jsMul \<bar>dy\<bar> 1.5)"
    by (simp add: horizontalSwipe_def)
  have V: "verticalSwipe \<bar>dx\<bar> \<bar>dy\<bar> = (\<bar>dy\<bar> > 80 \<and> \<bar>dy\<bar> > jsMul \<bar>dx\<bar> 1.5)"
    by (simp add: verticalSwipe_def)
  have excl: "\<not> (horizontalSwipe \<bar>dx\<bar> \<bar>dy\<bar> \<and> verticalSwipe \<bar>dx\<bar> \<bar>dy\<bar>)"
    by (rule swipe_tests_exclusive) simp_all
  have res: "analyzeGesture points =
      (if horizontalSwipe \<bar>dx\<bar> \<bar>dy\<bar> then Some (if dx > 0 then SWIPE_RIGHT else SWIPE_LEFT)
       else if verticalSwipe \<bar>dx\<bar> \<bar>dy\<bar> then Some (if dy > 0 then SWIPE_DOWN else SWIPE_UP)
       else None)"
    unfolding analyzeGesture_tests [OF len] Let_def dx [symmetric] dy [symmetric] ..
  show ?thesis
    using len excl unfolding res H V by auto
qed

theorem analyzeGesture_classification_witness:
  "analyzeGesture [(0, 0), (1, 1), (2, 2), (3, 3)] = None
   \<and> analyzeGesture [(0, 0), (30, 1), (60, 2), (90, 3), (120, 4)] = Some SWIPE_RIGHT
   \<and> analyzeGesture [(200, 0), (170, 1), (140, 2), (110, 3), (80, 4)] = Some SWIPE_LEFT
   \<and> analyzeGesture [(0, 0), (1, 30), (2, 60), (3, 90), (4, 120)] = Some SWIPE_DOWN
   \<and> analyzeGesture [(0, 200), (1, 170), (2, 140), (3, 110), (4, 80)] = Some SWIPE_UP
   \<and> analyzeGesture [(0, 0), (20, 20), (40, 40), (60, 60), (90, 90)] = None"
  using analyzeGesture_classification [where points = "[(0, 0), (1, 1), (2, 2), (3, 3)]" and dx = 3 and dy = 3]
        analyzeGesture_classification [where points = "[(0, 0), (30, 1), (60, 2), (90, 3), (120, 4)]" and dx = 120 and dy = 4]
        analyzeGesture_classification [where points = "[(200, 0), (170, 1), (140, 2), (110, 3), (80, 4)]" and dx = "-120" and dy = 4]
        analyzeGesture_classification [where points = "[(0, 0), (1, 30), (2, 60), (3, 90), (4, 120)]" and dx = 4 and dy = 120]
        analyzeGesture_classification [where points = "[(0, 200), (1, 170), (2, 140), (3, 110), (4, 80)]" and dx = 4 and dy = "-120"]
        analyzeGesture_classification [where points = "[(0, 0), (20, 20), (40, 40), (60, 60), (90, 90)]" and dx = 90 and dy = 90]
  by (simp add: jsSub_def jsMul_def roundDouble_simps)

text \<open>
  Claim C7. For every pair of non-negative magnitudes \<open>|dx|\<close> and \<open>|dy|\<close>, the horizontal
  test (\<open>|dx| > 80\<close> and \<open>|dx| > 1.5 |dy|\<close>) and the vertical test (\<open>|dy| > 80\<close> and
  \<open>|dy| > 1.5 |dx|\<close>) never hold together.
\<close>

theorem swipe_axes_mutually_exclusive:
  assumes "0 \<le> absDx" and "0 \<le> absDy"
  shows "\<not> (horizontalSwipe absDx absDy \<and> verticalSwipe absDx absDy)"
  using jsMul_ge [OF assms(1)] jsMul_ge [OF assms(2)]
  by (auto simp: horizontalSwipe_def verticalSwipe_def)

theorem swipe_axes_mutually_exclusive_witness:
  "(0::real) \<le> 100 \<and> (0::real) \<le> 10
   \<and> horizontalSwipe 100 10 \<and> \<not> verticalSwipe 100 10
   \<and> \<not> (horizontalSwipe 100 10 \<and> verticalSwipe 100 10)"
proof -
  have a: "(0::real) \<le> 100" and b: "(0::real) \<le> 10" by simp_all
  have h: "horizontalSwipe 100 10"
    by (simp add: horizontalSwipe_def jsMul_def roundDouble_simps)
  show ?thesis
    using swipe_axes_mutually_exclusive [OF a b] h by simp
qed

section \<open>The base64 round trip\<close>

text \<open>The alphabet, as the table of the standard.\<close>

lemma b64char_table:
  "map b64char [0..<64] =
     map of_char ''ABCDEFGHIJKLMNOPQRSTUVWXYZabcdefghijklmnopqrstuvwxyz0123456789+/''
   \<and> (61 :: 16 word) = of_char CHR ''=''"
  by code_simp

lemma unat_byte: "unat (b :: byte) < 256"
  using unsigned_less [of b, where 'a = nat] by simp

lemma ucast_fromCharCode: "ucast (fromCharCode b) = b"
  by (simp add: fromCharCode_def ucast_up_ucast_id is_up)

lemma unat_fromCharCode: "unat (fromCharCode b) = unat b"
  using unat_byte [of b] by (simp add: fromCharCode_def unsigned_ucast_eq take_bit_nat_eq_self)

lemma encode_loop: "foldl (\<lambda>binary b. binary @ [fromCharCode b]) acc bytes = acc @ map fromCharCode bytes"
  by (induction bytes arbitrary: acc) simp_all

lemma decode_loop_upto:
  "k \<le> length s \<Longrightarrow>
   foldl (\<lambda>bytes i. bytes[i := f (s ! i)]) (replicate (length s) z) [0..<k]
     = map f (take k s) @ replicate (length s - k) z"
proof (induction k)
  case 0
  then show ?case by simp
next
  case (Suc k)
  then have k: "k < length s" by simp
  have "(map f (take k s) @ replicate (length s - k) z)[k := f (s ! k)]
        = map f (take (Suc k) s) @ replicate (length s - Suc k) z"
    using k by (simp add: take_Suc_conv_app_nth list_update_append
        replicate_app_Cons_same Suc_diff_Suc upd_conv_take_nth_drop flip: replicate_Suc)
  with Suc k show ?case by simp
qed

lemma decode_loop:
  "foldl (\<lambda>bytes i. bytes[i := f (s ! i)]) (replicate (length s) z) [0..<length s] = map f s"
  using decode_loop_upto [of "length s" s f z] by simp

lemma b64encode_split: "b64encode bs = map b64char (sextets bs) @ padding bs"
  by (induction bs rule: b64encode.induct) simp_all


lemma sextet_bounds:
  fixes x y z :: nat
  assumes "x < 256" "y < 256" "z < 256"
  shows "x div 4 < 64" "(x mod 4) * 16 + y div 16 < 64" "(y mod 16) * 4 + z div 64 < 64"
        "z mod 64 < 64" "(x mod 4) * 16 < 64" "(y mod 16) * 4 < 64"
proof -
  have x4: "x mod 4 < 4" and y16: "y mod 16 < 16" by simp_all
  have yd: "y div 16 < 16" and zd: "z div 64 < 4" and xd: "x div 4 < 64"
    using assms by (simp_all add: div_less_iff_less_mult)
  show "x div 4 < 64" by (rule xd)
  show "(x mod 4) * 16 + y div 16 < 64" using x4 yd by linarith
  show "(y mod 16) * 4 + z div 64 < 64" using y16 zd by linarith
  show "z mod 64 < 64" by simp
  show "(x mod 4) * 16 < 64" using x4 by linarith
  show "(y mod 16) * 4 < 64" using y16 by linarith
qed

lemma sextets_lt: "s \<in> set (sextets bs) \<Longrightarrow> s < 64"
proof (induction bs rule: sextets.induct)
  case (1 a b c rest)
  note bnd = sextet_bounds [OF unat_byte [of a] unat_byte [of b] unat_byte [of c]]
  from 1 bnd show ?case by auto
next
  case (2 a b)
  note bnd = sextet_bounds [OF unat_byte [of a] unat_byte [of b] unat_byte [of b]]
  from 2 bnd show ?case by auto
next
  case (3 a)
  note bnd = sextet_bounds [OF unat_byte [of a] unat_byte [of a] unat_byte [of a]]
  from 3 bnd show ?case by auto
qed simp

lemma padding_cases: "padding bs = [] \<or> padding bs = [61] \<or> padding bs = [61, 61]"
  by (induction bs rule: padding.induct) simp_all

lemma length_sextets: "length (sextets bs) mod 4 \<noteq> 1"
  by (induction bs rule: sextets.induct) simp_all

lemma length_b64encode: "length (b64encode bs) mod 4 = 0"
  by (induction bs rule: b64encode.induct) simp_all

lemma unat_b64char:
  assumes "n < 64"
  shows "unat (b64char n) =
     (if n < 26 then 65 + n else if n < 52 then 71 + n else if n < 62 then n - 4
      else if n = 62 then 43 else 47)"
proof -
  have *: "unat (word_of_nat k :: 16 word) = k" if "k < 65536" for k
    using that by (simp add: unat_of_nat)
  show ?thesis
    using assms by (simp add: b64char_def * del: of_nat_add of_nat_diff of_nat_numeral)
qed

lemma b64char_index: "n < 64 \<Longrightarrow> b64index (b64char n) = Some n"
  unfolding b64index_def Let_def by (simp add: unat_b64char; arith)

lemma b64char_not_pad: "n < 64 \<Longrightarrow> b64char n \<noteq> 61"
proof
  assume n: "n < 64" and "b64char n = 61"
  then have "unat (b64char n) = 61" by simp
  then show False using n by (simp add: unat_b64char split: if_splits; arith)
qed

lemma b64char_not_space: "n < 64 \<Longrightarrow> \<not> isAsciiWhitespace (b64char n)"
proof
  assume n: "n < 64" and "isAsciiWhitespace (b64char n)"
  then have "unat (b64char n) \<in> {9, 10, 12, 13, 32}"
    by (auto simp: isAsciiWhitespace_def)
  then show False using n by (simp add: unat_b64char split: if_splits; arith)
qed


lemma byte_recombine:
  fixes x y z :: nat
  assumes "x < 256" "y < 256" "z < 256"
  shows "(x div 4) * 4 + ((x mod 4) * 16 + y div 16) div 16 = x"
    and "(((x mod 4) * 16 + y div 16) mod 16) * 16 + ((y mod 16) * 4 + z div 64) div 4 = y"
    and "(((y mod 16) * 4 + z div 64) mod 4) * 64 + z mod 64 = z"
    and "(((x mod 4) * 16 + y div 16) mod 16) * 16 + ((y mod 16) * 4) div 4 = y"
    and "(x div 4) * 4 + ((x mod 4) * 16) div 16 = x"
proof -
  have yd: "y div 16 < 16" and zd: "z div 64 < 4"
    using assms by (simp_all add: div_less_iff_less_mult)
  have a: "((x mod 4) * 16 + y div 16) div 16 = x mod 4" using yd by simp
  have b: "((x mod 4) * 16 + y div 16) mod 16 = y div 16" using yd by simp
  have c: "((y mod 16) * 4 + z div 64) div 4 = y mod 16" using zd by simp
  have d: "((y mod 16) * 4 + z div 64) mod 4 = z div 64" using zd by simp
  show "(x div 4) * 4 + ((x mod 4) * 16 + y div 16) div 16 = x" unfolding a by simp
  show "(((x mod 4) * 16 + y div 16) mod 16) * 16 + ((y mod 16) * 4 + z div 64) div 4 = y"
    unfolding b c by simp
  show "(((y mod 16) * 4 + z div 64) mod 4) * 64 + z mod 64 = z" unfolding d by simp
  show "(((x mod 4) * 16 + y div 16) mod 16) * 16 + ((y mod 16) * 4) div 4 = y"
    unfolding b by simp
  show "(x div 4) * 4 + ((x mod 4) * 16) div 16 = x" by simp
qed

lemma b64decode_sextets: "b64decode (sextets bs) = bs"
proof (induction bs rule: sextets.induct)
  case (1 a b c rest)
  note r = byte_recombine [OF unat_byte [of a] unat_byte [of b] unat_byte [of c]]
  have "b64decode (sextets (a # b # c # rest))
        = [of_nat (unat a), of_nat (unat b), of_nat (unat c)] @ b64decode (sextets rest)"
    by (simp only: sextets.simps b64decode.simps append.simps r)
  with 1 show ?case by simp
next
  case (2 a b)
  note r = byte_recombine [OF unat_byte [of a] unat_byte [of b] unat_byte [of b]]
  have "b64decode (sextets [a, b]) = [of_nat (unat a), of_nat (unat b)]"
    by (simp only: sextets.simps b64decode.simps r)
  then show ?case by simp
next
  case (3 a)
  note r = byte_recombine [OF unat_byte [of a] unat_byte [of a] unat_byte [of a]]
  have "b64decode (sextets [a]) = [of_nat (unat a)]"
    by (simp only: sextets.simps b64decode.simps r)
  then show ?case by simp
qed simp

lemma those_b64index: "(\<And>s. s \<in> set ss \<Longrightarrow> s < 64) \<Longrightarrow> those (map b64index (map b64char ss)) = Some ss"
  by (induction ss) (simp_all add: b64char_index)

lemma stripPadding_body:
  assumes "61 \<notin> set body" and "p = [] \<or> p = [61] \<or> p = [61, 61]"
  shows "stripPadding (body @ p) = body"
proof -
  consider "p = []" | "p = [61]" | "p = [61, 61]" using assms(2) by blast
  then show ?thesis
  proof cases
    case 1
    show ?thesis
    proof (cases body rule: rev_cases)
      case Nil
      with 1 show ?thesis by (simp add: stripPadding_def)
    next
      case (snoc ys y)
      with assms(1) have "y \<noteq> 61" by auto
      with 1 snoc show ?thesis by (simp add: stripPadding_def)
    qed
  next
    case 2
    show ?thesis
    proof (cases body rule: rev_cases)
      case Nil
      with 2 show ?thesis by (simp add: stripPadding_def)
    next
      case (snoc ys y)
      with assms(1) have "y \<noteq> 61" by auto
      with 2 snoc show ?thesis by (simp add: stripPadding_def butlast_append)
    qed
  next
    case 3
    then have "body @ p = (body @ [61]) @ [61]" by simp
    then show ?thesis by (simp add: stripPadding_def butlast_append del: append_assoc)
  qed
qed

lemma body_no_pad: "61 \<notin> set (map b64char (sextets bs))"
  using b64char_not_pad sextets_lt by fastforce

lemma b64encode_no_space: "filter (\<lambda>c. \<not> isAsciiWhitespace c) (b64encode bs) = b64encode bs"
proof -
  have "\<not> isAsciiWhitespace c" if "c \<in> set (b64encode bs)" for c
  proof -
    from that consider s where "s \<in> set (sextets bs)" "c = b64char s" | "c \<in> set (padding bs)"
      unfolding b64encode_split by auto
    then show ?thesis
    proof cases
      case 1
      then show ?thesis using b64char_not_space sextets_lt by blast
    next
      case 2
      then have "c = 61" using padding_cases [of bs] by auto
      then show ?thesis by (simp add: isAsciiWhitespace_def)
    qed
  qed
  then show ?thesis by (simp add: filter_id_conv)
qed

lemma atob_b64encode: "atob (b64encode bs) = Inr (map ucast bs)"
proof -
  have strip: "stripPadding (b64encode bs) = map b64char (sextets bs)"
    unfolding b64encode_split by (rule stripPadding_body [OF body_no_pad padding_cases])
  have len: "length (map b64char (sextets bs)) mod 4 \<noteq> 1"
    using length_sextets [of bs] by simp
  have th: "those (map b64index (map b64char (sextets bs))) = Some (sextets bs)"
    by (rule those_b64index) (rule sextets_lt)
  show ?thesis
    unfolding atob_def b64encode_no_space Let_def
    using len by (simp add: length_b64encode strip th b64decode_sextets del: length_map map_map)
qed

lemma btoa_binary: "btoa (map fromCharCode bytes) = Inr (b64encode bytes)"
proof -
  have "\<not> unat (fromCharCode b) > 255" for b
    using unat_byte [of b] by (simp add: unat_fromCharCode)
  then have "\<not> list_ex (\<lambda>c. unat c > 255) (map fromCharCode bytes)"
    by (simp add: list_ex_iff)
  moreover have "map ucast (map fromCharCode bytes) = bytes"
    by (simp add: ucast_fromCharCode comp_def)
  ultimately show ?thesis by (simp add: btoa_def)
qed

lemma encode_b64encode: "encode bytes = Inr (b64encode bytes)"
  by (simp add: encode_def encode_loop btoa_binary)

lemma decode_b64encode: "decode (b64encode bytes) = Inr bytes"
proof -
  let ?s = "map ucast bytes :: jsstring"
  have cast_back: "map (ucast :: 16 word \<Rightarrow> byte) ?s = bytes"
    by (simp add: comp_def ucast_up_ucast_id is_up)
  have "foldl (\<lambda>bs i. bs[i := (ucast :: 16 word \<Rightarrow> byte) (?s ! i)])
          (replicate (length ?s) 0) [0..<length ?s] = map ucast ?s"
    by (rule decode_loop)
  then show ?thesis
    unfolding cast_back by (simp add: decode_def atob_b64encode)
qed

text \<open>
  Claim C10. For every byte array \<open>b\<close>, \<open>encode\<close> returns a string (it does not throw)
  and \<open>decode\<close> of that string returns a byte array equal to \<open>b\<close>.
\<close>

theorem decode_encode: "\<exists>base64. encode bytes = Inr base64 \<and> decode base64 = Inr bytes"
  using encode_b64encode [of bytes] decode_b64encode [of bytes] by simp

section \<open>Properties of the audio session\<close>

subsection \<open>Teardown\<close>

lemma tryCatch_release:
  "tryCatch (release r) (\<lambda>e. Done) s =
     Done (if r \<in> faulty s then s else s\<lparr>released := insert r (released s)\<rparr>)"
  by (simp add: tryCatch_def release_def)

lemma releaseAll_Nil: "releaseAll [] s = s"
  by (simp add: releaseAll_def)

lemma releaseAll_Cons:
  "releaseAll rs (if r \<in> faulty s then s else s\<lparr>released := insert r (released s)\<rparr>)
     = releaseAll (r # rs) s"
  by (auto simp: releaseAll_def intro!: arg_cong [where f = "\<lambda>R. released_update (\<lambda>_. R) s"])

lemma forEach_release:
  "forEach (\<lambda>src. tryCatch (release (sid src)) (\<lambda>e. Done)) srcs s
     = Done (releaseAll (map sid srcs) s)"
proof (induction srcs arbitrary: s)
  case Nil
  show ?case by (simp add: releaseAll_Nil)
next
  case (Cons src srcs)
  let ?f = "\<lambda>src. tryCatch (release (sid src)) (\<lambda>e. Done)"
  let ?s = "if sid src \<in> faulty s then s else s\<lparr>released := insert (sid src) (released s)\<rparr>"
  have "forEach ?f (src # srcs) s = andThen (?f src s) (forEach ?f srcs)"
    by (simp only: forEach.simps)
  also have "?f src s = Done ?s"
    by (rule tryCatch_release)
  also have "andThen (Done ?s) (forEach ?f srcs) = forEach ?f srcs ?s"
    by (simp only: andThen_def outcome.case)
  also have "\<dots> = Done (releaseAll (map sid srcs) ?s)"
    by (rule Cons.IH)
  also have "releaseAll (map sid srcs) ?s = releaseAll (map sid (src # srcs)) s"
    unfolding list.map by (rule releaseAll_Cons)
  finally show ?case .
qed

lemma stopAllAudio_result:
  "stopAllAudio s = Done ((releaseAll (map sid (activeSources s)) s)\<lparr>activeSources := []\<rparr>)"
  by (simp add: stopAllAudio_def forEach_release andThen_def)

lemma tryCatch_release_one:
  "tryCatch (release r) (\<lambda>e. Done) s = Done (releaseAll [r] s)"
  by (auto simp: tryCatch_def release_def releaseAll_def intro!: app.equality)

lemma closeSession_result:
  "closeSession s =
     Done ((releaseAll (sessionResources s) s)
             \<lparr>activeSources := [], currentSessionRef := None, audioContextInRef := None,
              audioContextOutRef := None, nextStartTimeRef := 0\<rparr>)"
  by (cases "currentSessionRef s"; cases "audioContextInRef s"; cases "audioContextOutRef s")
     (auto simp: closeSession_def stopAllAudio_result andThen_def tryCatch_release_one
        releaseAll_def sessionResources_def intro!: app.equality)




subsection \<open>Opening a session\<close>

text \<open>
  What is unfolded to evaluate a run of events: the definitions of the gesture engine and
  of the voice session, with the values of the rounded operations on the integers that
  occur in the example inputs.
\<close>

lemma sqrt_values: "sqrt 900 = 30" "sqrt 3600 = 60" "sqrt 8100 = 90" "sqrt 14400 = 120"
  by (rule real_sqrt_unique; simp)+

lemmas gesture_engine_defs =
  run_def step_def fireDue_def fireTimer_def handlePointerDown_def handlePointerMove_def
  handlePointerUp_def holdTimeout_def tapTimeout_def setTimeout_def clearTimeout_def
  timerId_def due_def timerCallback_def analyzeGesture_def horizontalSwipe_def
  verticalSwipe_def movedBeyondHold_def jsAdd_def jsSub_def jsMul_def jsSquare_def jsSqrt_def
  sqrt_values roundDouble_simps recordIntent_def speakText_def playHaptic_def Let_def

lemmas voice_session_defs =
  startVoiceSession_def settle_def suspend_def closeSession_result releaseAll_def
  sessionResources_def fresh_def

text \<open>
  Claim C3, evaluated where it fails. With every permission granted, navigator mode is
  started by a swipe to the right and maps mode by a swipe down.

  When the second swipe comes after the first session is open, the second call closes
  the connection 8 and the two audio contexts of the first (5 and 6), and opens the
  connection 16;
  but the microphone stream of the first session (stream 4) is never stopped.

  When the second swipe comes while the first call is waiting for its connection, the
  teardown of the second call finds no session in \<open>currentSessionRef\<close>. The first
  connection (15) is stored when it opens and is overwritten when the second (16) opens:
  both are open at the end, and the first is out of reach, so that a later
  \<open>closeSession\<close> leaves it open as well. Neither microphone stream (4 and 11) is
  stopped.
\<close>

theorem startVoiceSession_leaves_session_open:
  "liveSessions (run allGranted consecutiveSessions readyApp) = [8, 16]
   \<and> 8 \<in> released (run allGranted consecutiveSessions readyApp)
   \<and> 5 \<in> released (run allGranted consecutiveSessions readyApp)
   \<and> 6 \<in> released (run allGranted consecutiveSessions readyApp)
   \<and> 16 \<notin> released (run allGranted consecutiveSessions readyApp)
   \<and> micStreams (run allGranted consecutiveSessions readyApp) = [4, 12]
   \<and> 4 \<notin> released (run allGranted consecutiveSessions readyApp)
   \<and> liveSessions (run allGranted overlappingSessions readyApp) = [15, 16]
   \<and> 15 \<notin> released (run allGranted overlappingSessions readyApp)
   \<and> 16 \<notin> released (run allGranted overlappingSessions readyApp)
   \<and> currentSessionRef (run allGranted overlappingSessions readyApp) = Some 16
   \<and> awaiting (run allGranted overlappingSessions readyApp) = []
   \<and> micStreams (run allGranted overlappingSessions readyApp) = [4, 11]
   \<and> 4 \<notin> released (run allGranted overlappingSessions readyApp)
   \<and> 11 \<notin> released (run allGranted overlappingSessions readyApp)
   \<and> 15 \<notin> released (state_of (closeSession (run allGranted overlappingSessions readyApp)))"
  by (simp add: consecutiveSessions_def overlappingSessions_def swipeRight_def swipeDown_def
      readyApp_def initialApp_def allGranted_def gesture_engine_defs voice_session_defs
      startNavigatorMode_def startMapsMode_def)

subsection \<open>Playback scheduling\<close>

lemma duration_positive:
  assumes "0 < frameCount buffer" "0 < sampleRate buffer"
  shows "0 < duration buffer"
  unfolding duration_def jsDiv_def using assms by (intro roundDouble_positive) simp

lemma onmessage_scheduled:
  assumes "onmessage t (Some chunk) s = Done s'" and "chunk \<noteq> []"
      and "audioContextOutRef s = Some ctx"
  shows "\<exists>data buffer src.
             decode chunk = Inr data \<and> decodeAudioData data 24000 1 = Inr buffer
           \<and> frameCount buffer = length data div 2 \<and> sampleRate buffer = 24000
           \<and> 0 < frameCount buffer
           \<and> activeSources s' = activeSources s @ [src]
           \<and> bufferDuration src = duration buffer
           \<and> startTime src = max (nextStartTimeRef s) t
           \<and> nextStartTimeRef s' = jsAdd (startTime src) (bufferDuration src)
           \<and> audioContextOutRef s' = Some ctx"
proof -
  from assms obtain data where data: "decode chunk = Inr data"
    by (cases "decode chunk") (auto simp: onmessage_def Let_def)
  from assms data obtain buffer where buffer: "decodeAudioData data 24000 1 = Inr buffer"
    by (cases "decodeAudioData data 24000 1") (auto simp: onmessage_def Let_def)
  from buffer have frames: "frameCount buffer = length data div 2" "sampleRate buffer = 24000"
      "0 < frameCount buffer"
    by (auto simp: decodeAudioData_def Let_def split: if_splits)
  let ?start = "max (nextStartTimeRef s) t"
  let ?src = "\<lparr>sid = nextId s, startTime = ?start, bufferDuration = duration buffer\<rparr>"
  have "activeSources s' = activeSources s @ [?src]
      \<and> nextStartTimeRef s' = jsAdd ?start (duration buffer)
      \<and> audioContextOutRef s' = Some ctx"
    using assms data buffer by (auto simp: onmessage_def fresh_def Let_def)
  with data buffer frames show ?thesis
    by (intro exI [of _ data] exI [of _ buffer] exI [of _ ?src]) simp
qed

text \<open>
  Claim C2, as stated, at an input where it fails. A chunk of one frame arrives when the
  playback clock reads 5 and nothing is scheduled, and a second one arrives at the same
  reading of the clock. The
  first starts at 5 and lasts 1/24000 s (as a double). The cursor is the rounded sum of
  the two, which is below their exact sum, and the second chunk starts at the cursor:
  before the first chunk's start plus its duration.
\<close>

theorem playback_rounding_counterexample:
  "\<exists>s1 s2 src1 src2.
       onmessage 5 (Some oneFrameChunk) playingSession = Done s1
     \<and> onmessage 5 (Some oneFrameChunk) s1 = Done s2
     \<and> activeSources s2 = [src1, src2]
     \<and> startTime src2 < startTime src1 + bufferDuration src1"
proof -
  define d :: real where "d = 6148914691236517 / 2 ^ 67"
  define c :: real where "c = 5629546446709238 / 2 ^ 50"
  have d: "jsDiv 1 24000 = d"
  proof -
    let ?x = "1 / 24000 :: real"
    have r: "roundHalfEven (?x / 2 powr (of_int (- 15) - 52)) = 6148914691236517"
      by (rule roundHalfEven_eval) (simp_all add: powr_neg_numeral)
    have "roundDouble ?x =
        of_int (roundHalfEven (?x / 2 powr (of_int (- 15) - 52))) * 2 powr (of_int (- 15) - 52)"
      by (rule roundDouble_eval) (simp_all add: powr_neg_numeral)
    also have "\<dots> = d"
      unfolding r d_def by (simp add: powr_neg_numeral)
    finally show ?thesis by (simp only: jsDiv_def)
  qed
  have c: "jsAdd 5 d = c"
  proof -
    let ?x = "5 + 6148914691236517 / 2 ^ 67 :: real"
    have r: "roundHalfEven (?x / 2 powr (of_int 2 - 52)) = 5629546446709238"
      by (rule roundHalfEven_eval) (simp_all add: powr_neg_numeral)
    have "roundDouble ?x =
        of_int (roundHalfEven (?x / 2 powr (of_int 2 - 52))) * 2 powr (of_int 2 - 52)"
      by (rule roundDouble_eval) (simp_all add: powr_neg_numeral)
    also have "\<dots> = c"
      unfolding r c_def by (simp add: powr_neg_numeral)
    finally show ?thesis by (simp only: jsAdd_def d_def)
  qed
  have less: "c < 5 + d"
    by (simp add: c_def d_def)
  have nonneg: "5 \<le> c"
    by (simp add: c_def)
  have chunk: "decode oneFrameChunk = Inr [0, 0]" "oneFrameChunk \<noteq> []"
    by (simp only: oneFrameChunk_def decode_b64encode, simp add: oneFrameChunk_def)
  have buffer: "duration \<lparr>frameCount = Suc 0, sampleRate = 24000, channelData = cd\<rparr> = d" for cd
    using d by (simp add: duration_def)
  define src1 where "src1 = \<lparr>sid = 5, startTime = 5, bufferDuration = d\<rparr>"
  define src2 where "src2 = \<lparr>sid = 6, startTime = c, bufferDuration = d\<rparr>"
  define s1 where "s1 = playingSession
      \<lparr>isSpeaking := True, nextStartTimeRef := c, nextId := 6, activeSources := [src1]\<rparr>"
  define s2 where "s2 = s1
      \<lparr>nextStartTimeRef := jsAdd c d, nextId := 7, activeSources := [src1, src2]\<rparr>"
  have 1: "onmessage 5 (Some oneFrameChunk) playingSession = Done s1"
    by (auto simp: onmessage_def chunk decodeAudioData_def buffer c fresh_def Let_def
        s1_def src1_def playingSession_def initialApp_def intro!: app.equality)
  have 2: "onmessage 5 (Some oneFrameChunk) s1 = Done s2"
    using nonneg
    by (auto simp: onmessage_def chunk decodeAudioData_def buffer fresh_def Let_def
        s1_def s2_def src1_def src2_def playingSession_def initialApp_def max_def
        intro!: app.equality)
  have 3: "activeSources s2 = [src1, src2]"
    by (simp add: s2_def)
  have 4: "startTime src2 < startTime src1 + bufferDuration src1"
    using less by (simp add: src1_def src2_def)
  from 1 2 3 4 show ?thesis by blast
qed

text \<open>
  Claim C2, amended. A chunk that \<open>onmessage\<close> schedules has been decoded from its
  base64 string into a buffer of one frame per two bytes at 24000 frames per second. It
  starts at the maximum of \<open>nextStartTime\<close> and the current time of the playback clock,
  and \<open>nextStartTime\<close> then is the sum of that start and the duration of the buffer,
  rounded to the nearest double. So for two chunks scheduled one after the other,
  whatever the clock reads when each arrives, the second starts no earlier than the
  rounded sum of the first chunk's start and duration, which differs from the exact sum
  by at most one rounding error.
\<close>

theorem playback_gapless_schedule:
  assumes first: "onmessage t1 (Some chunk1) s = Done s1" "chunk1 \<noteq> []"
      and ctx: "audioContextOutRef s \<noteq> None"
      and second: "onmessage t2 (Some chunk2) s1 = Done s2" "chunk2 \<noteq> []"
  shows "\<exists>data1 data2 buffer1 buffer2 src1 src2.
           decode chunk1 = Inr data1 \<and> decodeAudioData data1 24000 1 = Inr buffer1
         \<and> decode chunk2 = Inr data2 \<and> decodeAudioData data2 24000 1 = Inr buffer2
         \<and> activeSources s1 = activeSources s @ [src1]
         \<and> activeSources s2 = activeSources s1 @ [src2]
         \<and> bufferDuration src1 = jsDiv (real (length data1 div 2)) 24000
         \<and> bufferDuration src2 = jsDiv (real (length data2 div 2)) 24000
         \<and> bufferDuration src1 = duration buffer1 \<and> bufferDuration src2 = duration buffer2
         \<and> 0 < bufferDuration src1 \<and> 0 < bufferDuration src2
         \<and> startTime src1 = max (nextStartTimeRef s) t1
         \<and> nextStartTimeRef s1 = jsAdd (startTime src1) (bufferDuration src1)
         \<and> startTime src2 = max (nextStartTimeRef s1) t2
         \<and> nextStartTimeRef s2 = jsAdd (startTime src2) (bufferDuration src2)
         \<and> startTime src2 \<ge> jsAdd (startTime src1) (bufferDuration src1)
         \<and> \<bar>jsAdd (startTime src1) (bufferDuration src1)
              - (startTime src1 + bufferDuration src1)\<bar>
             \<le> \<bar>startTime src1 + bufferDuration src1\<bar> / 2 ^ 53"
proof -
  from ctx obtain c where c: "audioContextOutRef s = Some c" by auto
  from onmessage_scheduled [OF first c] obtain data1 buffer1 src1
    where 1: "decode chunk1 = Inr data1" "decodeAudioData data1 24000 1 = Inr buffer1"
      "frameCount buffer1 = length data1 div 2" "sampleRate buffer1 = 24000"
      "0 < frameCount buffer1"
      "activeSources s1 = activeSources s @ [src1]"
      "bufferDuration src1 = duration buffer1"
      "startTime src1 = max (nextStartTimeRef s) t1"
      "nextStartTimeRef s1 = jsAdd (startTime src1) (bufferDuration src1)"
      "audioContextOutRef s1 = Some c"
    by blast
  from onmessage_scheduled [OF second 1(10)] obtain data2 buffer2 src2
    where 2: "decode chunk2 = Inr data2" "decodeAudioData data2 24000 1 = Inr buffer2"
      "frameCount buffer2 = length data2 div 2" "sampleRate buffer2 = 24000"
      "0 < frameCount buffer2"
      "activeSources s2 = activeSources s1 @ [src2]"
      "bufferDuration src2 = duration buffer2"
      "startTime src2 = max (nextStartTimeRef s1) t2"
      "nextStartTimeRef s2 = jsAdd (startTime src2) (bufferDuration src2)"
    by blast
  have d1: "bufferDuration src1 = jsDiv (real (length data1 div 2)) 24000"
    unfolding 1(7) duration_def 1(3) 1(4) by simp
  have d2: "bufferDuration src2 = jsDiv (real (length data2 div 2)) 24000"
    unfolding 2(7) duration_def 2(3) 2(4) by simp
  have p1: "0 < bufferDuration src1"
    unfolding 1(7) using 1(4) 1(5) by (intro duration_positive) simp_all
  have p2: "0 < bufferDuration src2"
    unfolding 2(7) using 2(4) 2(5) by (intro duration_positive) simp_all
  have order: "startTime src2 \<ge> jsAdd (startTime src1) (bufferDuration src1)"
    unfolding 2(8) 1(9) by simp
  have near: "\<bar>jsAdd (startTime src1) (bufferDuration src1)
              - (startTime src1 + bufferDuration src1)\<bar>
             \<le> \<bar>startTime src1 + bufferDuration src1\<bar> / 2 ^ 53"
    unfolding jsAdd_def by (rule roundDouble_error)
  from 1(1,2,6,7,8,9) 2(1,2,6,7,8,9) d1 d2 p1 p2 order near show ?thesis
    by blast
qed

lemma decode_silentChunk: "decode silentChunk = Inr [0, 0, 0, 0]"
  by (simp only: silentChunk_def decode_b64encode)

lemma silentChunk_not_empty: "silentChunk \<noteq> []"
  by (simp add: silentChunk_def)

lemma onmessage_silentChunk:
  assumes "audioContextOutRef s = Some ctx"
  shows "onmessage t (Some silentChunk) s =
     Done ((if \<not> isSpeaking s then s\<lparr>isSpeaking := True\<rparr> else s)
             \<lparr>nextStartTimeRef := jsAdd (max (nextStartTimeRef s) t) (jsDiv 2 24000),
              nextId := Suc (nextId s),
              activeSources := activeSources s @
                [\<lparr>sid = nextId s, startTime = max (nextStartTimeRef s) t,
                  bufferDuration = jsDiv 2 24000\<rparr>]\<rparr>)"
  using assms
  by (auto simp: onmessage_def decode_silentChunk silentChunk_not_empty decodeAudioData_def
      duration_def fresh_def Let_def intro!: app.equality)

theorem playback_gapless_schedule_witness:
  "\<exists>s1 s2 src1 src2.
       onmessage 5 (Some silentChunk) playingSession = Done s1
     \<and> onmessage 5 (Some silentChunk) s1 = Done s2
     \<and> silentChunk \<noteq> []
     \<and> audioContextOutRef playingSession \<noteq> None
     \<and> activeSources s2 = [src1, src2]
     \<and> startTime src1 = 5
     \<and> bufferDuration src1 = jsDiv 2 24000
     \<and> 0 < bufferDuration src1
     \<and> startTime src2 = jsAdd 5 (jsDiv 2 24000)
     \<and> startTime src2 \<ge> jsAdd (startTime src1) (bufferDuration src1)"
proof -
  have ctx: "audioContextOutRef playingSession = Some 3"
    and empty: "activeSources playingSession = []"
    and cursor: "nextStartTimeRef playingSession = 0"
    by (simp_all add: playingSession_def initialApp_def)
  define s1 where "s1 = state_of (onmessage 5 (Some silentChunk) playingSession)"
  have d1: "onmessage 5 (Some silentChunk) playingSession = Done s1"
    unfolding s1_def onmessage_silentChunk [OF ctx] by simp
  have ctx1: "audioContextOutRef s1 = Some 3"
    unfolding s1_def onmessage_silentChunk [OF ctx] using ctx by simp
  define s2 where "s2 = state_of (onmessage 5 (Some silentChunk) s1)"
  have d2: "onmessage 5 (Some silentChunk) s1 = Done s2"
    unfolding s2_def onmessage_silentChunk [OF ctx1] by simp
  have ctx0: "audioContextOutRef playingSession \<noteq> None"
    using ctx by simp
  from playback_gapless_schedule [OF d1 silentChunk_not_empty ctx0 d2 silentChunk_not_empty]
  obtain data1 src1 src2 where
    *: "decode silentChunk = Inr data1"
       "activeSources s1 = activeSources playingSession @ [src1]"
       "activeSources s2 = activeSources s1 @ [src2]"
       "bufferDuration src1 = jsDiv (real (length data1 div 2)) 24000"
       "0 < bufferDuration src1"
       "startTime src1 = max (nextStartTimeRef playingSession) 5"
       "nextStartTimeRef s1 = jsAdd (startTime src1) (bufferDuration src1)"
       "startTime src2 = max (nextStartTimeRef s1) 5"
       "startTime src2 \<ge> jsAdd (startTime src1) (bufferDuration src1)"
    by blast
  from *(1) have data1: "data1 = [0, 0, 0, 0]"
    by (simp add: decode_silentChunk)
  from *(2,3) empty have srcs: "activeSources s2 = [src1, src2]" by simp
  from *(6) cursor have start1: "startTime src1 = 5" by simp
  from *(4) data1 have dur1: "bufferDuration src1 = jsDiv 2 24000" by simp
  have "roundDouble 5 \<le> roundDouble (5 + bufferDuration src1)"
    using *(5) by (intro roundDouble_mono) simp
  then have "5 \<le> jsAdd 5 (bufferDuration src1)"
    by (simp add: jsAdd_def roundDouble_simps)
  with *(8) *(7) start1 have "startTime src2 = jsAdd 5 (bufferDuration src1)"
    by simp
  with dur1 have start2: "startTime src2 = jsAdd 5 (jsDiv 2 24000)" by simp
  from d1 d2 silentChunk_not_empty ctx0 srcs start1 dur1 *(5) start2 *(9) show ?thesis
    by blast
qed

section \<open>Properties of the interaction modes\<close>

text \<open>
  Claim C8, as stated, at an input where it fails. In navigator mode, with the camera
  denied, \<open>startVisionMode\<close> leaves the mode idle: the navigator flag has been cleared
  before the camera was requested.
\<close>

theorem startVisionMode_denied_counterexample:
  "interactionMode navigatorApp = Navigator
   \<and> interactionMode (startVisionMode cameraDenied navigatorApp) = Idle"
  by (simp add: interactionMode_def navigatorApp_def readyApp_def initialApp_def
      cameraDenied_def startNavigatorMode_def startVisionMode_def
      startVoiceSession_def suspend_def closeSession_result Let_def
      releaseAll_def speakText_def playHaptic_def sessionResources_def)

text \<open>
  Claim C8, amended. When the camera is denied, \<open>startVisionMode\<close> speaks the denial
  (after the heavy haptic), and starts nothing: vision stays as it was, no camera stream
  is attached, no frame sampler is installed, and the audio session is untouched (no
  microphone request, no connection, the session and context refs, the scheduled
  sources and the released resources as before). The navigator, maps, guidance and blank
  flags are cleared, so the mode afterwards is vision if vision was active and idle
  otherwise: it is unchanged exactly when it was idle or vision before.
\<close>

theorem startVisionMode_camera_denied:
  assumes "\<not> cameraGranted env"
  shows "effects (startVisionMode env s) =
           effects s @ [Speak (Text ''Vision Mode''), GetUserMedia Video, Haptic heavy,
                        Speak (Text ''Camera access denied.'')]
       \<and> visionActive (startVisionMode env s) = visionActive s
       \<and> videoSrcObject (startVisionMode env s) = videoSrcObject s
       \<and> frameIntervalRef (startVisionMode env s) = frameIntervalRef s
       \<and> currentSessionRef (startVisionMode env s) = currentSessionRef s
       \<and> audioContextInRef (startVisionMode env s) = audioContextInRef s
       \<and> audioContextOutRef (startVisionMode env s) = audioContextOutRef s
       \<and> activeSources (startVisionMode env s) = activeSources s
       \<and> micStreams (startVisionMode env s) = micStreams s
       \<and> voiceStatus (startVisionMode env s) = voiceStatus s
       \<and> released (startVisionMode env s) = released s
       \<and> nextId (startVisionMode env s) = nextId s
       \<and> \<not> isNavMode (startVisionMode env s) \<and> \<not> isMapsMode (startVisionMode env s)
       \<and> \<not> isGuidanceActive (startVisionMode env s) \<and> \<not> isBlank (startVisionMode env s)
       \<and> interactionMode (startVisionMode env s) = (if visionActive s then Vision else Idle)
       \<and> (interactionMode (startVisionMode env s) = interactionMode s
            \<longleftrightarrow> interactionMode s = Idle \<or> interactionMode s = Vision)"
  using assms
  by (auto simp: startVisionMode_def speakText_def playHaptic_def Let_def interactionMode_def)

theorem startVisionMode_camera_denied_witness:
  "\<not> cameraGranted cameraDenied
   \<and> effects (startVisionMode cameraDenied readyApp) =
        [Speak (Text ''Vision Mode''), GetUserMedia Video, Haptic heavy,
         Speak (Text ''Camera access denied.'')]
   \<and> interactionMode readyApp = Idle
   \<and> interactionMode (startVisionMode cameraDenied readyApp) = Idle
   \<and> currentSessionRef (startVisionMode cameraDenied readyApp) = None
   \<and> micStreams (startVisionMode cameraDenied readyApp) = []"
proof -
  have denied: "\<not> cameraGranted cameraDenied"
    by (simp add: cameraDenied_def)
  have before: "effects readyApp = []" "interactionMode readyApp = Idle"
    "currentSessionRef readyApp = None" "micStreams readyApp = []" "\<not> visionActive readyApp"
    by (simp_all add: readyApp_def initialApp_def interactionMode_def)
  show ?thesis
    using denied before startVisionMode_camera_denied [OF denied, of readyApp] by simp
qed

section \<open>Properties of the calibration\<close>





lemma handleOrientation_first_reading:
  "initialOrientation s = None \<Longrightarrow>
   calibrationStep (handleOrientation now (Some alpha, Some beta, Some gamma) s) = calibrationStep s
   \<and> lastPromptTime (handleOrientation now (Some alpha, Some beta, Some gamma) s) = lastPromptTime s"
  by (simp add: handleOrientation_def)





subsection \<open>Who writes \<open>lastPromptTime\<close>\<close>

























section \<open>Properties of the gesture engine\<close>

subsection \<open>A press\<close>


lemma pressFrame_fields:
  "appState (pressFrame s) = appState s" "isBlank (pressFrame s) = isBlank s"
  "isMicHeld (pressFrame s) = isMicHeld s" "tapCountRef (pressFrame s) = tapCountRef s"
  "tapTimerRef (pressFrame s) = tapTimerRef s" "nextId (pressFrame s) = nextId s"
  "isGuidanceActive (pressFrame s) = isGuidanceActive s"
  "isAnalyzing (pressFrame s) = isAnalyzing s"
  by (simp_all add: pressFrame_def)

lemma pressFrame_eq_fields:
  assumes "pressFrame x = pressFrame s"
  shows "isMicHeld x = isMicHeld s" "tapCountRef x = tapCountRef s"
    "tapTimerRef x = tapTimerRef s" "nextId x = nextId s"
    "isGuidanceActive x = isGuidanceActive s" "isAnalyzing x = isAnalyzing s"
  using pressFrame_fields [of x] pressFrame_fields [of s] unfolding assms by simp_all






subsection \<open>The tap timer\<close>







subsection \<open>The hold timer\<close>

text \<open>
  What the callback of the hold timer checks: the microphone becomes held only if
  neither speech nor a countdown is active when the timer fires, and the value of
  \<open>isAnalyzing\<close> captured when the timer was armed is false.
\<close>

lemma holdTimeout_fires:
  "isMicHeld (holdTimeout a s) \<and> \<not> isMicHeld s
     \<Longrightarrow> \<not> isSpeaking s \<and> \<not> isCountingDownRef s \<and> \<not> a"
  by (auto simp: holdTimeout_def)

text \<open>A move of more than 30 units from the first sample cancels the armed hold timer.\<close>

lemma handlePointerMove_cancels_hold:
  assumes "appState s = READY" "\<not> isBlank s" "pointsRef s = first # rest"
      and "holdTimerRef s = Some timer"
      and "movedBeyondHold p first"
  shows "holdTimerRef (handlePointerMove p s) = None
       \<and> timers (handlePointerMove p s) = filter (\<lambda>tm. timerId tm \<noteq> timer) (timers s)"
  using assms by (simp add: handlePointerMove_def clearTimeout_def Let_def)

text \<open>
  Claim C6, evaluated where it fails. In maps mode a double tap is followed by a third
  press that is held still. The press arms the hold timer while no analysis is running;
  250 ms later the tap timer fires and \<open>describeLocation\<close> starts the analysis; when
  the hold timer fires at 1650 the analysis is in progress (as it is one millisecond
  before), and the microphone becomes held all the same, because the callback reads the
  value of \<open>isAnalyzing\<close> of the render that armed it.
\<close>

theorem hold_fires_during_analysis:
  "\<not> isAnalyzing (run allGranted swipeDownThenDoubleTapThenPress readyApp)
   \<and> isAnalyzing (run allGranted (swipeDownThenDoubleTapThenPress @ [Elapse 1649]) readyApp)
   \<and> \<not> isMicHeld (run allGranted (swipeDownThenDoubleTapThenPress @ [Elapse 1649]) readyApp)
   \<and> isAnalyzing (run allGranted (swipeDownThenDoubleTapThenPress @ [Elapse 1650]) readyApp)
   \<and> isMicHeld (run allGranted (swipeDownThenDoubleTapThenPress @ [Elapse 1650]) readyApp)
   \<and> intents (run allGranted (swipeDownThenDoubleTapThenPress @ [Elapse 1650]) readyApp)
        = [Swipe SWIPE_DOWN, DoubleTap, Hold]"
  by (simp add: swipeDownThenDoubleTapThenPress_def readyApp_def initialApp_def allGranted_def
      gesture_engine_defs voice_session_defs describeLocation_def startMapsMode_def)

end
